theory Spec2Isabelle
  imports
    Complex_Main
    "HOL-Library.AList"
    "HOL-Library.Char_ord"
    "HOL-Library.List_Lexorder"
begin

section \<open>JavaScript objects and values\<close>

text \<open>
  The server's \<^verbatim>\<open>players\<close>, the scene's \<^verbatim>\<open>this.players\<close> and the WebRTC service's
  \<^verbatim>\<open>this.peers\<close> are plain JavaScript objects used as dictionaries from connection ids
  to records. Such an object is an association list in insertion order, the order
  \<^verbatim>\<open>Object.keys\<close> and \<^verbatim>\<open>Object.values\<close> enumerate (connection ids are transport-assigned
  random strings: none is an array index or a name on \<^verbatim>\<open>Object.prototype\<close>).
  \<^verbatim>\<open>obj[k] = v\<close> replaces the value in place when the key exists and appends it
  otherwise; \<^verbatim>\<open>delete obj[k]\<close> removes the key; \<^verbatim>\<open>obj[k]\<close> of a missing key is
  \<^verbatim>\<open>undefined\<close>, here \<open>None\<close>. Every stored value is an object, hence truthy, so the
  tests \<^verbatim>\<open>if (obj[k])\<close> of the source are tests for \<open>Some\<close>.
\<close>

type_synonym 'v js_object = "(string \<times> 'v) list"

definition obj_get :: "'v js_object \<Rightarrow> string \<Rightarrow> 'v option" where
  "obj_get obj k = map_of obj k"

definition obj_set :: "string \<Rightarrow> 'v \<Rightarrow> 'v js_object \<Rightarrow> 'v js_object" where
  "obj_set k v obj = AList.update k v obj"

definition obj_delete :: "string \<Rightarrow> 'v js_object \<Rightarrow> 'v js_object" where
  "obj_delete k obj = AList.delete k obj"

definition Object_keys :: "'v js_object \<Rightarrow> string list" where
  "Object_keys obj = map fst obj"

definition Object_values :: "'v js_object \<Rightarrow> 'v list" where
  "Object_values obj = map snd obj"

text \<open>
  A value received in a message. A number is a finite double (\<^verbatim>\<open>NaN\<close> and the
  infinities cannot travel in a JSON message), held by its exact value, a real; the
  content of an object is opaque.
  \<open>truthy\<close> is JavaScript's conversion to boolean, the test behind \<^verbatim>\<open>!v\<close>.
\<close>

datatype 'a js_value =
    JUndefined
  | JNull
  | JBool bool
  | JNumber real
  | JString string
  | JObject 'a

fun truthy :: "'a js_value \<Rightarrow> bool" where
  "truthy JUndefined = False"
| "truthy JNull = False"
| "truthy (JBool b) = b"
| "truthy (JNumber n) = (n \<noteq> 0)"
| "truthy (JString s) = (s \<noteq> [])"
| "truthy (JObject _) = True"

section \<open>JavaScript arithmetic\<close>

text \<open>
  A coordinate that is stored or sent is a finite double, held by its exact value, a
  real. What JavaScript computes from doubles is rounded, and may be an infinity or
  \<^verbatim>\<open>NaN\<close>, so the operations the code applies to numbers are taken as a parameter: an
  arithmetic over a type \<open>'d\<close> of numbers, with the number of a finite double
  (\<open>js_num\<close>), the operators \<^verbatim>\<open>-\<close>, \<^verbatim>\<open>+\<close>, \<^verbatim>\<open>*\<close>, \<^verbatim>\<open><\<close> and \<^verbatim>\<open><=\<close>, and \<^verbatim>\<open>Math.sqrt\<close>.
  \<^verbatim>\<open>a >= b\<close> is \<^verbatim>\<open>b <= a\<close>.
\<close>

record 'd arith =
  js_num :: "real \<Rightarrow> 'd"
  js_sub :: "'d \<Rightarrow> 'd \<Rightarrow> 'd"
  js_add :: "'d \<Rightarrow> 'd \<Rightarrow> 'd"
  js_mul :: "'d \<Rightarrow> 'd \<Rightarrow> 'd"
  Math_sqrt :: "'d \<Rightarrow> 'd"
  js_less :: "'d \<Rightarrow> 'd \<Rightarrow> bool"
  js_le :: "'d \<Rightarrow> 'd \<Rightarrow> bool"

text \<open>
  IEEE 754 gives each operation on finite doubles the exact result, rounded, as long
  as it does not overflow: \<open>rounded rnd\<close> is that arithmetic for a rounding function
  \<open>rnd\<close>, on numbers that stay finite. \<open>exact\<close> rounds nothing; it computes what doubles
  compute wherever every result is itself a double, as with sums, differences and
  products of small integers. \<open>toward_zero\<close> rounds to the integers, towards 0.
\<close>

definition rounded :: "(real \<Rightarrow> real) \<Rightarrow> real arith" where
  "rounded rnd =
     \<lparr>js_num = (\<lambda>x. x),
      js_sub = (\<lambda>a b. rnd (a - b)),
      js_add = (\<lambda>a b. rnd (a + b)),
      js_mul = (\<lambda>a b. rnd (a * b)),
      Math_sqrt = (\<lambda>a. rnd (sqrt a)),
      js_less = (\<lambda>a b. a < b),
      js_le = (\<lambda>a b. a \<le> b)\<rparr>"

definition exact :: "real arith" where
  "exact = rounded (\<lambda>x. x)"


text \<open>
  In an arithmetic that is \<open>sign_symmetric\<close> the square of a difference does not depend
  on the order of the two operands. The arithmetic of doubles is: \<^verbatim>\<open>a - b\<close> and \<^verbatim>\<open>b - a\<close>
  have the same magnitude, rounding included (or both are \<^verbatim>\<open>NaN\<close>), and the square of a
  number is that of its magnitude. By \<open>rounded_sign_symmetric\<close> so is every arithmetic
  that rounds exact results with a rounding function that commutes with negation.
\<close>

definition sign_symmetric :: "'d arith \<Rightarrow> bool" where
  "sign_symmetric ar \<longleftrightarrow>
     (\<forall>a b. js_mul ar (js_sub ar a b) (js_sub ar a b) = js_mul ar (js_sub ar b a) (js_sub ar b a))"

section \<open>The server: \<^verbatim>\<open>setupSocketHandler\<close>\<close>

text \<open>
  A player record \<^verbatim>\<open>{ id, x, y, anim }\<close>, as the connection handler creates it. The
  payload of a move is \<^verbatim>\<open>{ x, y, anim }\<close>, as \<^verbatim>\<open>GameScene.update\<close> sends it.
\<close>

record player_info =
  player_id :: string
  player_x :: real
  player_y :: real
  player_anim :: string

record movement_data =
  move_x :: real
  move_y :: real
  move_anim :: string

text \<open>
  The payload of a signal request, \<^verbatim>\<open>{ targetId, signal }\<close>: the target is a connection
  id when the field is present, the signal is any value.
\<close>

record 'a signal_data =
  targetId :: "string option"
  signal :: "'a js_value"

text \<open>The events of \<^verbatim>\<open>EVENTS\<close> that the server sends, each with its payload.\<close>

datatype 'a message =
    PLAYERS_SYNC "player_info js_object"
  | PLAYER_JOIN player_info
  | PLAYER_MOVE player_info
  | PLAYER_LEAVE string
  | WEBRTC_SIGNAL string "'a js_value"

text \<open>
  The four ways the handler sends: \<^verbatim>\<open>socket.emit\<close> (to the handler's own socket),
  \<^verbatim>\<open>socket.broadcast.emit\<close> (to every socket but the handler's own),
  \<^verbatim>\<open>io.to(room).emit\<close> and \<^verbatim>\<open>io.emit\<close> (to every socket).
\<close>

datatype 'a emission =
    Socket_emit string "'a message"
  | Broadcast_emit string "'a message"
  | To_emit string "'a message"
  | Io_emit "'a message"

text \<open>
  What the transport does with an emission, given the ids of the connected sockets.
  The handler never joins a socket to a room, so the only rooms are the ones socket.io
  makes for each socket under its own id: \<^verbatim>\<open>io.to(r)\<close> reaches the socket whose id is
  \<open>r\<close>, and nobody when there is none.
\<close>

fun recipients :: "string list \<Rightarrow> 'a emission \<Rightarrow> string list" where
  "recipients conns (Socket_emit s m) = filter (\<lambda>c. c = s) conns"
| "recipients conns (Broadcast_emit s m) = filter (\<lambda>c. c \<noteq> s) conns"
| "recipients conns (To_emit r m) = filter (\<lambda>c. c = r) conns"
| "recipients conns (Io_emit m) = conns"

fun payload :: "'a emission \<Rightarrow> 'a message" where
  "payload (Socket_emit s m) = m"
| "payload (Broadcast_emit s m) = m"
| "payload (To_emit r m) = m"
| "payload (Io_emit m) = m"

definition deliveries :: "string list \<Rightarrow> 'a emission list \<Rightarrow> (string \<times> 'a message) list" where
  "deliveries conns es = concat (map (\<lambda>e. map (\<lambda>c. (c, payload e)) (recipients conns e)) es)"

text \<open>
  Each handler takes the id of its socket and the \<^verbatim>\<open>players\<close> object, and returns the
  object as it leaves it with the emissions it made, in order. Console output is not
  modelled.
\<close>

definition spawn :: "string \<Rightarrow> player_info" where
  "spawn socket_id = \<lparr>player_id = socket_id, player_x = 400, player_y = 300, player_anim = ''idle''\<rparr>"

definition on_CONNECT :: "string \<Rightarrow> player_info js_object \<Rightarrow> player_info js_object \<times> 'a emission list" where
  "on_CONNECT socket_id players =
     (let players' = obj_set socket_id (spawn socket_id) players
      in (players',
          [Socket_emit socket_id (PLAYERS_SYNC players'),
           Broadcast_emit socket_id (PLAYER_JOIN (spawn socket_id))]))"

definition on_PLAYER_MOVE ::
  "string \<Rightarrow> movement_data \<Rightarrow> player_info js_object \<Rightarrow> player_info js_object \<times> 'a emission list" where
  "on_PLAYER_MOVE socket_id movementData players =
     (case obj_get players socket_id of
        None \<Rightarrow> (players, [])
      | Some p \<Rightarrow>
          (obj_set socket_id
             (p\<lparr>player_x := move_x movementData,
                player_y := move_y movementData,
                player_anim := move_anim movementData\<rparr>) players,
           [Broadcast_emit socket_id
              (PLAYER_MOVE \<lparr>player_id = socket_id,
                             player_x = move_x movementData,
                             player_y = move_y movementData,
                             player_anim = move_anim movementData\<rparr>)]))"

definition falsy_id :: "string option \<Rightarrow> bool" where
  "falsy_id t = (case t of None \<Rightarrow> True | Some s \<Rightarrow> s = [])"

definition on_WEBRTC_SIGNAL :: "string \<Rightarrow> 'a signal_data \<Rightarrow> 'a emission list" where
  "on_WEBRTC_SIGNAL socket_id data =
     (if falsy_id (targetId data) \<or> \<not> truthy (signal data) then []
      else case targetId data of
             None \<Rightarrow> []
           | Some t \<Rightarrow> [To_emit t (WEBRTC_SIGNAL socket_id (signal data))])"

definition on_DISCONNECT :: "string \<Rightarrow> player_info js_object \<Rightarrow> player_info js_object \<times> 'a emission list" where
  "on_DISCONNECT socket_id players =
     (obj_delete socket_id players, [Io_emit (PLAYER_LEAVE socket_id)])"

section \<open>The client: \<^verbatim>\<open>GameScene\<close>\<close>

text \<open>
  Of a Phaser sprite the scene reads and writes the position only. The scene holds the
  other players' sprites by id in \<^verbatim>\<open>this.players\<close>, its own sprite in
  \<^verbatim>\<open>this.player\<close> (unset until \<^verbatim>\<open>createMyPlayer\<close> runs) and its own id in
  \<^verbatim>\<open>this.myPlayerId\<close> (\<^verbatim>\<open>null\<close> from the constructor, then the socket's id, which is
  \<^verbatim>\<open>undefined\<close> while the socket is not connected: \<open>None\<close> in both cases).
\<close>

record sprite =
  sprite_x :: real
  sprite_y :: real

record game_scene =
  players :: "sprite js_object"
  myPlayerId :: "string option"
  player :: "sprite option"

definition new_scene :: "string option \<Rightarrow> game_scene" where
  "new_scene socket_id = \<lparr>players = [], myPlayerId = socket_id, player = None\<rparr>"

definition sprite_at :: "player_info \<Rightarrow> sprite" where
  "sprite_at playerInfo = \<lparr>sprite_x = player_x playerInfo, sprite_y = player_y playerInfo\<rparr>"

definition createMyPlayer :: "player_info \<Rightarrow> game_scene \<Rightarrow> game_scene" where
  "createMyPlayer playerInfo sc = sc\<lparr>player := Some (sprite_at playerInfo)\<rparr>"

definition addOtherPlayer :: "player_info \<Rightarrow> game_scene \<Rightarrow> game_scene" where
  "addOtherPlayer playerInfo sc =
     sc\<lparr>players := obj_set (player_id playerInfo) (sprite_at playerInfo) (players sc)\<rparr>"

definition removePlayer :: "string \<Rightarrow> game_scene \<Rightarrow> game_scene" where
  "removePlayer playerId sc =
     (case obj_get (players sc) playerId of
        None \<Rightarrow> sc
      | Some _ \<Rightarrow> sc\<lparr>players := obj_delete playerId (players sc)\<rparr>)"

definition updateOtherPlayer :: "player_info \<Rightarrow> game_scene \<Rightarrow> game_scene" where
  "updateOtherPlayer playerInfo sc =
     (case obj_get (players sc) (player_id playerInfo) of
        None \<Rightarrow> sc
      | Some otherPlayer \<Rightarrow>
          sc\<lparr>players := obj_set (player_id playerInfo)
                 (otherPlayer\<lparr>sprite_x := player_x playerInfo, sprite_y := player_y playerInfo\<rparr>)
                 (players sc)\<rparr>)"

text \<open>
  The listener of \<^verbatim>\<open>PLAYERS_SYNC\<close>: for each value of the received object, in order,
  the scene's own record makes the local player and any other record makes a sprite
  in \<^verbatim>\<open>this.players\<close>.
\<close>

fun sync_each :: "player_info list \<Rightarrow> game_scene \<Rightarrow> game_scene" where
  "sync_each [] sc = sc"
| "sync_each (p # ps) sc =
     sync_each ps
       (if Some (player_id p) = myPlayerId sc then createMyPlayer p sc else addOtherPlayer p sc)"

definition on_PLAYERS_SYNC :: "player_info js_object \<Rightarrow> game_scene \<Rightarrow> game_scene" where
  "on_PLAYERS_SYNC snapshot sc = sync_each (Object_values snapshot) sc"

definition on_PLAYER_JOIN :: "player_info \<Rightarrow> game_scene \<Rightarrow> game_scene" where
  "on_PLAYER_JOIN p sc = addOtherPlayer p sc"

definition on_PLAYER_LEAVE :: "string \<Rightarrow> game_scene \<Rightarrow> game_scene" where
  "on_PLAYER_LEAVE playerId sc = removePlayer playerId sc"

text \<open>
  \<^verbatim>\<open>Phaser.Math.Distance.Between\<close> is the library's distance of two points,
  \<^verbatim>\<open>Math.sqrt(dx * dx + dy * dy)\<close> with \<^verbatim>\<open>dx = x1 - x2\<close> and \<^verbatim>\<open>dy = y1 - y2\<close>, computed in
  the arithmetic of doubles.
\<close>

definition Distance_Between :: "'d arith \<Rightarrow> 'd \<Rightarrow> 'd \<Rightarrow> 'd \<Rightarrow> 'd \<Rightarrow> 'd" where
  "Distance_Between ar x1 y1 x2 y2 =
     (let dx = js_sub ar x1 x2; dy = js_sub ar y1 y2
      in Math_sqrt ar (js_add ar (js_mul ar dx dx) (js_mul ar dy dy)))"

definition threshold :: real where
  "threshold = 150"

text \<open>
  \<^verbatim>\<open>checkProximity\<close> returns without a word while the scene has no local player
  (\<open>None\<close>); otherwise it emits \<^verbatim>\<open>proximityUpdate\<close> with the ids, in key order, of the
  sprites whose computed distance is less than the threshold. An id taken from
  \<^verbatim>\<open>Object.keys\<close> always has a sprite, so the \<open>None\<close> case of \<open>is_close\<close> is never
  reached.
\<close>

definition is_close :: "'d arith \<Rightarrow> sprite \<Rightarrow> sprite js_object \<Rightarrow> string \<Rightarrow> bool" where
  "is_close ar me others ident =
     (case obj_get others ident of
        None \<Rightarrow> False
      | Some otherPlayer \<Rightarrow>
          js_less ar
            (Distance_Between ar
               (js_num ar (sprite_x me)) (js_num ar (sprite_y me))
               (js_num ar (sprite_x otherPlayer)) (js_num ar (sprite_y otherPlayer)))
            (js_num ar threshold))"

definition checkProximity :: "'d arith \<Rightarrow> game_scene \<Rightarrow> string list option" where
  "checkProximity ar sc =
     (case player sc of
        None \<Rightarrow> None
      | Some me \<Rightarrow> Some (filter (is_close ar me (players sc)) (Object_keys (players sc))))"

section \<open>The client: \<^verbatim>\<open>WebRTCService\<close> and the \<^verbatim>\<open>proximityUpdate\<close> handler of \<^verbatim>\<open>App\<close>\<close>

text \<open>
  A \<^verbatim>\<open>SimplePeer\<close> instance is known by the \<^verbatim>\<open>initiator\<close> option it was made with. What
  the service does to the library is recorded, in order, in \<open>effects\<close>: making a peer
  (an initiator then starts the negotiation with an offer), handing it a signal,
  destroying it. \<open>remoteStreams\<close> is the React state of \<^verbatim>\<open>App\<close>, the streams by peer id,
  a stream being a handle.
\<close>

record peer =
  peer_initiator :: bool

datatype 'a peer_effect =
    New_SimplePeer string bool
  | Peer_signal string "'a js_value"
  | Peer_destroy string

fun effect_peer :: "'a peer_effect \<Rightarrow> string" where
  "effect_peer (New_SimplePeer target i) = target"
| "effect_peer (Peer_signal senderId s) = senderId"
| "effect_peer (Peer_destroy peerId) = peerId"

record 'a client =
  peers :: "peer js_object"
  remoteStreams :: "nat js_object"
  effects :: "'a peer_effect list"

definition createPeer :: "string \<Rightarrow> bool \<Rightarrow> 'a client \<Rightarrow> 'a client" where
  "createPeer target initiator c =
     c\<lparr>peers := obj_set target \<lparr>peer_initiator = initiator\<rparr> (peers c),
       effects := effects c @ [New_SimplePeer target initiator]\<rparr>"

definition handleSignal :: "string \<Rightarrow> 'a js_value \<Rightarrow> 'a client \<Rightarrow> 'a client" where
  "handleSignal senderId sig c =
     (let c1 = (case obj_get (peers c) senderId of
                  None \<Rightarrow> createPeer senderId False c
                | Some _ \<Rightarrow> c)
      in c1\<lparr>effects := effects c1 @ [Peer_signal senderId sig]\<rparr>)"

definition removePeer :: "string \<Rightarrow> 'a client \<Rightarrow> 'a client" where
  "removePeer peerId c =
     (case obj_get (peers c) peerId of
        None \<Rightarrow> c
      | Some _ \<Rightarrow>
          c\<lparr>peers := obj_delete peerId (peers c),
            effects := effects c @ [Peer_destroy peerId]\<rparr>)"

text \<open>
  The handler's first loop, over \<^verbatim>\<open>closePlayers\<close>: a close player without a peer gets
  one, made as initiator, when this client's socket id is the smaller of the two under
  JavaScript's \<^verbatim>\<open><\<close> on strings, the lexicographic order of the code units (the order
  of \<open>string\<close> here).
\<close>

fun connect_close :: "string \<Rightarrow> string list \<Rightarrow> 'a client \<Rightarrow> 'a client" where
  "connect_close socket_id [] c = c"
| "connect_close socket_id (peerId # rest) c =
     connect_close socket_id rest
       (if obj_get (peers c) peerId = None
        then (if socket_id < peerId then createPeer peerId True c else c)
        else c)"

text \<open>
  The second loop, over the keys that \<^verbatim>\<open>peers\<close> has when the loop starts: a peer that is
  not among the close players is removed, and its stream is dropped from the state.
\<close>

fun disconnect_far :: "string list \<Rightarrow> string list \<Rightarrow> 'a client \<Rightarrow> 'a client" where
  "disconnect_far closePlayers [] c = c"
| "disconnect_far closePlayers (peerId # rest) c =
     disconnect_far closePlayers rest
       (if peerId \<notin> set closePlayers
        then (let c1 = removePeer peerId c
              in c1\<lparr>remoteStreams := obj_delete peerId (remoteStreams c1)\<rparr>)
        else c)"

definition on_proximityUpdate :: "string \<Rightarrow> string list \<Rightarrow> 'a client \<Rightarrow> 'a client" where
  "on_proximityUpdate socket_id closePlayers c =
     (let c1 = connect_close socket_id closePlayers c
      in disconnect_far closePlayers (Object_keys (peers c1)) c1)"

text \<open>
  One recomputation on a client: \<^verbatim>\<open>checkProximity\<close>, as \<^verbatim>\<open>update\<close> calls it on every
  frame, and the handler of the event it emits.
\<close>

definition recompute :: "'d arith \<Rightarrow> string \<Rightarrow> game_scene \<Rightarrow> 'a client \<Rightarrow> 'a client" where
  "recompute ar socket_id sc c =
     (case checkProximity ar sc of
        None \<Rightarrow> c
      | Some closePlayers \<Rightarrow> on_proximityUpdate socket_id closePlayers c)"

section \<open>The zone variant: \<^verbatim>\<open>mapParser\<close>, \<^verbatim>\<open>stateManager\<close> and \<^verbatim>\<open>videoHandler\<close>\<close>

text \<open>
  The part of a Tiled map that \<^verbatim>\<open>loadMap\<close> reads: the layers by name, the objects of a
  layer with their rectangle and their custom properties (\<open>None\<close> where the map has no
  \<^verbatim>\<open>objects\<close> or \<^verbatim>\<open>properties\<close> field).
\<close>

record zone =
  zone_x :: real
  zone_y :: real
  zone_width :: real
  zone_height :: real

record tiled_property =
  prop_name :: string
  prop_value :: string

record tiled_object =
  object_x :: real
  object_y :: real
  object_width :: real
  object_height :: real
  properties :: "tiled_property list option"

record tiled_layer =
  layer_name :: string
  objects :: "tiled_object list option"

text \<open>
  \<^verbatim>\<open>jitsiZones\<close> is a \<^verbatim>\<open>Map\<close> from room name to zone: it iterates in the order in which
  the names were first set, and setting a name again replaces its zone where it
  stands.
\<close>

definition jitsiProp :: "tiled_object \<Rightarrow> tiled_property option" where
  "jitsiProp obj =
     (case properties obj of
        None \<Rightarrow> None
      | Some props \<Rightarrow> find (\<lambda>prop. prop_name prop = ''jitsiRoom'') props)"

fun load_objects :: "tiled_object list \<Rightarrow> zone js_object \<Rightarrow> zone js_object" where
  "load_objects [] jitsiZones = jitsiZones"
| "load_objects (obj # rest) jitsiZones =
     load_objects rest
       (case jitsiProp obj of
          None \<Rightarrow> jitsiZones
        | Some prop \<Rightarrow>
            obj_set (prop_value prop)
              \<lparr>zone_x = object_x obj, zone_y = object_y obj,
               zone_width = object_width obj, zone_height = object_height obj\<rparr>
              jitsiZones)"

definition loadMap :: "tiled_layer list \<Rightarrow> zone js_object \<Rightarrow> zone js_object" where
  "loadMap layers jitsiZones =
     (case find (\<lambda>layer. layer_name layer = ''Triggers'') layers of
        None \<Rightarrow> jitsiZones
      | Some triggerLayer \<Rightarrow>
          (case objects triggerLayer of
             None \<Rightarrow> jitsiZones
           | Some objs \<Rightarrow> load_objects objs jitsiZones))"

fun getJitsiRoomForPosition :: "'d arith \<Rightarrow> zone js_object \<Rightarrow> real \<Rightarrow> real \<Rightarrow> string option" where
  "getJitsiRoomForPosition ar [] x y = None"
| "getJitsiRoomForPosition ar ((roomName, zone) # rest) x y =
     (if js_le ar (js_num ar (zone_x zone)) (js_num ar x) \<and>
         js_le ar (js_num ar x) (js_add ar (js_num ar (zone_x zone)) (js_num ar (zone_width zone))) \<and>
         js_le ar (js_num ar (zone_y zone)) (js_num ar y) \<and>
         js_le ar (js_num ar y) (js_add ar (js_num ar (zone_y zone)) (js_num ar (zone_height zone)))
      then Some roomName
      else getJitsiRoomForPosition ar rest x y)"

text \<open>
  The inclusive rectangle test in the words of the specification, \<^verbatim>\<open>zone.x <= x <= zone.x + width\<close>
  and the same for \<open>y\<close>, the far bounds being the sums as the arithmetic computes them;
  to compare \<open>getJitsiRoomForPosition\<close> with.
\<close>

definition inside_zone :: "'d arith \<Rightarrow> zone \<Rightarrow> real \<Rightarrow> real \<Rightarrow> bool" where
  "inside_zone ar z x y \<longleftrightarrow>
     js_le ar (js_num ar (zone_x z)) (js_num ar x) \<and>
     js_le ar (js_num ar x) (js_add ar (js_num ar (zone_x z)) (js_num ar (zone_width z))) \<and>
     js_le ar (js_num ar (zone_y z)) (js_num ar y) \<and>
     js_le ar (js_num ar y) (js_add ar (js_num ar (zone_y z)) (js_num ar (zone_height z)))"

text \<open>
  \<^verbatim>\<open>stateManager\<close> keeps one Redis hash per player, under a key made of the socket id:
  a hash is an object from field names to strings, and the store an object from
  socket ids to hashes. \<^verbatim>\<open>hGetAll\<close> of a key without a hash gives an empty object, and
  \<^verbatim>\<open>hSet\<close> makes the hash when there is none. The field \<^verbatim>\<open>currentJitsiRoom\<close> holds the name
  of the room the player is in, or the string \<^verbatim>\<open>'null'\<close>, which \<^verbatim>\<open>addPlayer\<close> and
  \<^verbatim>\<open>setPlayerJitsiRoom\<close> store for no room. The set of the players of a room, which
  \<^verbatim>\<open>addPlayer\<close> also updates, is not modelled.
\<close>

type_synonym redis_hash = "string js_object"

definition hGetAll :: "redis_hash js_object \<Rightarrow> string \<Rightarrow> redis_hash" where
  "hGetAll store key = (case obj_get store key of None \<Rightarrow> [] | Some h \<Rightarrow> h)"

definition hSet :: "string \<Rightarrow> string \<Rightarrow> string \<Rightarrow> redis_hash js_object \<Rightarrow> redis_hash js_object" where
  "hSet key field v store = obj_set key (obj_set field v (hGetAll store key)) store"

definition addPlayer :: "string \<Rightarrow> string \<Rightarrow> string \<Rightarrow> redis_hash js_object \<Rightarrow> redis_hash js_object" where
  "addPlayer socketId username role store =
     hSet socketId ''currentJitsiRoom'' ''null''
       (hSet socketId ''currentRoom'' ''main_office''
          (hSet socketId ''direction'' ''down''
             (hSet socketId ''y'' ''100''
                (hSet socketId ''x'' ''100''
                   (hSet socketId ''role'' role
                      (hSet socketId ''username'' username
                         (hSet socketId ''id'' socketId store)))))))"

definition getPlayer :: "redis_hash js_object \<Rightarrow> string \<Rightarrow> redis_hash" where
  "getPlayer store socketId = hGetAll store socketId"

definition setPlayerJitsiRoom :: "string \<Rightarrow> string option \<Rightarrow> redis_hash js_object \<Rightarrow> redis_hash js_object" where
  "setPlayerJitsiRoom socketId jitsiRoom store =
     hSet socketId ''currentJitsiRoom''
       (case jitsiRoom of
          None \<Rightarrow> ''null''
        | Some room \<Rightarrow> if room = [] then ''null'' else room)
       store"

text \<open>
  The events that \<^verbatim>\<open>checkJitsiZone\<close> sends, with their \<^verbatim>\<open>roomName\<close>; that of a leave is
  the stored room, \<^verbatim>\<open>undefined\<close> (\<open>None\<close>) when the hash has no such field.
\<close>

datatype jitsi_event =
    Join_jitsi string
  | Leave_jitsi "string option"

text \<open>
  \<^verbatim>\<open>checkJitsiZone\<close>, called with the socket of the player that moved and the new position.
  Its events go to that socket (\<^verbatim>\<open>socket.emit\<close>). What \<^verbatim>\<open>getPlayer\<close> returns is an object,
  so the return at \<^verbatim>\<open>if (!player)\<close> is never taken. The stored room is a string or
  \<^verbatim>\<open>undefined\<close> and the room of the position is a string or \<^verbatim>\<open>null\<close>: \<^verbatim>\<open>===\<close> holds when
  both are the same string; \<^verbatim>\<open>if (newJitsiRoom)\<close> holds for a name that is not empty.
\<close>

definition checkJitsiZone ::
  "'d arith \<Rightarrow> zone js_object \<Rightarrow> string \<Rightarrow> real \<Rightarrow> real \<Rightarrow> redis_hash js_object
     \<Rightarrow> redis_hash js_object \<times> (string \<times> jitsi_event) list" where
  "checkJitsiZone ar jitsiZones socket_id newX newY store =
     (let currentJitsiRoom = obj_get (getPlayer store socket_id) ''currentJitsiRoom'';
          newJitsiRoom = getJitsiRoomForPosition ar jitsiZones newX newY
      in if currentJitsiRoom \<noteq> None \<and> currentJitsiRoom = newJitsiRoom then (store, [])
         else (case newJitsiRoom of
                 None \<Rightarrow>
                   (setPlayerJitsiRoom socket_id None store,
                    [(socket_id, Leave_jitsi currentJitsiRoom)])
               | Some room \<Rightarrow>
                   if room \<noteq> []
                   then (setPlayerJitsiRoom socket_id (Some room) store,
                         [(socket_id, Join_jitsi room)])
                   else (setPlayerJitsiRoom socket_id None store,
                         [(socket_id, Leave_jitsi currentJitsiRoom)])))"

section \<open>Well-formed registries\<close>

text \<open>
  The \<^verbatim>\<open>players\<close> object of the server has each key once, and the record under a key
  carries that key as its \<^verbatim>\<open>id\<close>.
\<close>

definition registry_ok :: "player_info js_object \<Rightarrow> bool" where
  "registry_ok registry \<longleftrightarrow>
     distinct (Object_keys registry) \<and> (\<forall>(k, p) \<in> set registry. player_id p = k)"

section \<open>Neighbours in a snapshot\<close>


definition distance :: "'d arith \<Rightarrow> player_info \<Rightarrow> player_info \<Rightarrow> 'd" where
  "distance ar p q =
     Math_sqrt ar
       (js_add ar
          (js_mul ar (js_sub ar (js_num ar (player_x p)) (js_num ar (player_x q)))
                     (js_sub ar (js_num ar (player_x p)) (js_num ar (player_x q))))
          (js_mul ar (js_sub ar (js_num ar (player_y p)) (js_num ar (player_y q)))
                     (js_sub ar (js_num ar (player_y p)) (js_num ar (player_y q)))))"

text \<open>
  The zones of a list of map objects in the order of the file, to compare the loaded
  table with, and the names of a list in the order of their first appearance.
\<close>

definition named_zones :: "tiled_object list \<Rightarrow> zone js_object" where
  "named_zones objs =
     List.map_filter
       (\<lambda>obj. map_option
          (\<lambda>prop. (prop_value prop,
                   \<lparr>zone_x = object_x obj, zone_y = object_y obj,
                    zone_width = object_width obj, zone_height = object_height obj\<rparr>))
          (jitsiProp obj))
       objs"

definition first_names :: "string list \<Rightarrow> string list" where
  "first_names ns = rev (remdups (rev ns))"

section \<open>Facts about objects\<close>

lemma obj_get_set: "obj_get (obj_set k v obj) k' = (if k' = k then Some v else obj_get obj k')"
  by (simp add: obj_get_def obj_set_def update_conv')

lemma obj_get_delete: "obj_get (obj_delete k obj) k' = (if k' = k then None else obj_get obj k')"
  by (simp add: obj_get_def obj_delete_def delete_conv')

lemma keys_iff_get: "k \<in> set (Object_keys obj) \<longleftrightarrow> obj_get obj k \<noteq> None"
  by (simp add: Object_keys_def obj_get_def map_of_eq_None_iff)

lemma set_obj_set: "set (obj_set k v obj) \<subseteq> insert (k, v) (set obj)"
  unfolding obj_set_def by (induction obj) auto

lemma set_obj_delete: "set (obj_delete k obj) \<subseteq> set obj"
  unfolding obj_delete_def by (induction obj) auto

lemma obj_set_absent: "obj_get obj k = None \<Longrightarrow> obj_set k v obj = obj @ [(k, v)]"
  unfolding obj_set_def obj_get_def by (induction obj) (auto split: if_splits)

lemma registry_ok_empty: "registry_ok []"
  by (simp add: registry_ok_def Object_keys_def)

lemma registry_ok_set:
  assumes "registry_ok registry" "player_id p = k"
  shows "registry_ok (obj_set k p registry)"
proof -
  have "distinct (Object_keys (obj_set k p registry))"
    using assms(1) by (simp add: registry_ok_def Object_keys_def obj_set_def distinct_update)
  moreover have "\<forall>(k', p') \<in> set (obj_set k p registry). player_id p' = k'"
    using assms set_obj_set [of k p registry] by (auto simp: registry_ok_def)
  ultimately show ?thesis by (simp add: registry_ok_def)
qed

lemma registry_ok_delete:
  assumes "registry_ok registry"
  shows "registry_ok (obj_delete k registry)"
proof -
  have "distinct (Object_keys (obj_delete k registry))"
    using assms by (simp add: registry_ok_def Object_keys_def obj_delete_def distinct_delete)
  moreover have "\<forall>(k', p') \<in> set (obj_delete k registry). player_id p' = k'"
    using assms set_obj_delete [of k registry] by (auto simp: registry_ok_def)
  ultimately show ?thesis by (simp add: registry_ok_def)
qed

lemma registry_ok_get:
  assumes "registry_ok registry" "obj_get registry k = Some p"
  shows "player_id p = k"
  using assms unfolding registry_ok_def obj_get_def
  by (auto dest: map_of_SomeD)

lemma registry_ok_on_CONNECT:
  "registry_ok registry \<Longrightarrow> registry_ok (fst (on_CONNECT socket_id registry))"
  by (simp add: on_CONNECT_def Let_def registry_ok_set spawn_def)

lemma registry_ok_on_PLAYER_MOVE:
  assumes "registry_ok registry"
  shows "registry_ok (fst (on_PLAYER_MOVE socket_id movementData registry))"
proof (cases "obj_get registry socket_id")
  case None
  then show ?thesis using assms by (simp add: on_PLAYER_MOVE_def)
next
  case (Some p)
  then have "player_id p = socket_id" using assms by (rule registry_ok_get [rotated])
  then show ?thesis using assms Some by (simp add: on_PLAYER_MOVE_def registry_ok_set)
qed

lemma registry_ok_on_DISCONNECT:
  "registry_ok registry \<Longrightarrow> registry_ok (fst (on_DISCONNECT socket_id registry))"
  by (simp add: on_DISCONNECT_def registry_ok_delete)

lemma filter_eq_distinct:
  "distinct xs \<Longrightarrow> filter (\<lambda>c. c = t) xs = (if t \<in> set xs then [t] else [])"
  by (induction xs) auto

lemma find_append:
  "find P (xs @ ys) = (case find P xs of None \<Rightarrow> find P ys | Some x \<Rightarrow> Some x)"
  by (induction xs) simp_all

lemma sync_each_myPlayerId: "myPlayerId (sync_each vs sc) = myPlayerId sc"
  by (induction vs arbitrary: sc) (simp_all add: createMyPlayer_def addOtherPlayer_def)

lemma sync_each_player:
  "player (sync_each vs sc) =
     (case find (\<lambda>v. Some (player_id v) = myPlayerId sc) (rev vs) of
        None \<Rightarrow> player sc
      | Some v \<Rightarrow> Some (sprite_at v))"
proof (induction vs arbitrary: sc)
  case Nil
  then show ?case by simp
next
  case (Cons v vs)
  show ?case
    by (simp add: Cons.IH find_append createMyPlayer_def addOtherPlayer_def split: option.splits)
qed


lemma find_registry_values:
  assumes "registry_ok registry"
  shows "find (\<lambda>v. player_id v = k) (rev (Object_values registry)) = obj_get registry k"
  using assms
proof (induction registry)
  case Nil
  then show ?case by (simp add: Object_values_def obj_get_def)
next
  case (Cons e registry)
  obtain k0 p0 where e: "e = (k0, p0)" by (cases e)
  from Cons.prems have ok: "registry_ok registry" and id0: "player_id p0 = k0"
    and fresh: "k0 \<notin> fst ` set registry"
    by (auto simp: registry_ok_def Object_keys_def e)
  have ids: "\<forall>v \<in> set (Object_values registry). player_id v \<noteq> k0"
    using ok fresh by (force simp: registry_ok_def Object_values_def)
  have none: "find (\<lambda>v. player_id v = k0) (rev (Object_values registry)) = None"
    using ids by (simp add: find_None_iff)
  show ?case
  proof (cases "k = k0")
    case True
    then show ?thesis
      using none id0 by (simp add: e Object_values_def obj_get_def find_append)
  next
    case False
    then show ?thesis
      using Cons.IH [OF ok] id0
      by (simp add: e Object_values_def obj_get_def find_append split: option.splits)
  qed
qed

lemma obj_get_Nil: "obj_get [] k = None"
  by (simp add: obj_get_def)




lemma rounded_sign_symmetric:
  assumes "\<forall>x. rnd (- x) = - rnd x"
  shows "sign_symmetric (rounded rnd)"
proof -
  have "rnd (rnd (a - b) * rnd (a - b)) = rnd (rnd (b - a) * rnd (b - a))" for a b
  proof -
    have "rnd (b - a) = - rnd (a - b)"
      using assms [rule_format, of "a - b"] by simp
    then show ?thesis by simp
  qed
  then show ?thesis by (simp add: sign_symmetric_def rounded_def)
qed

lemma exact_simps:
  "js_num exact x = x"
  "js_sub exact a b = a - b"
  "js_add exact a b = a + b"
  "js_mul exact a b = a * b"
  "Math_sqrt exact a = sqrt a"
  "js_less exact a b \<longleftrightarrow> a < b"
  "js_le exact a b \<longleftrightarrow> a \<le> b"
  by (simp_all add: exact_def rounded_def)

lemma exact_sign_symmetric: "sign_symmetric exact"
  unfolding exact_def by (rule rounded_sign_symmetric) simp


lemma distance_exact:
  "distance exact p q = sqrt ((player_x p - player_x q)\<^sup>2 + (player_y p - player_y q)\<^sup>2)"
  by (simp add: distance_def exact_simps power2_eq_square)

lemma checkProximity_mem:
  assumes "checkProximity ar sc = Some closePlayers"
  shows "k \<in> set closePlayers \<longleftrightarrow>
           (\<exists>me other. player sc = Some me \<and> obj_get (players sc) k = Some other \<and>
              js_less ar
                (Distance_Between ar
                   (js_num ar (sprite_x me)) (js_num ar (sprite_y me))
                   (js_num ar (sprite_x other)) (js_num ar (sprite_y other)))
                (js_num ar threshold))"
  using assms
  by (auto simp: checkProximity_def is_close_def keys_iff_get split: option.splits)


lemma find_Some_set: "find P xs = Some x \<Longrightarrow> x \<in> set xs \<and> P x"
  by (induction xs) (auto split: if_splits)

lemma sync_each_player_iff:
  "player (sync_each vs sc) \<noteq> None \<longleftrightarrow>
     player sc \<noteq> None \<or> (\<exists>p \<in> set vs. Some (player_id p) = myPlayerId sc)"
proof (cases "find (\<lambda>v. Some (player_id v) = myPlayerId sc) (rev vs)")
  case None
  then have "\<not> (\<exists>p \<in> set vs. Some (player_id p) = myPlayerId sc)"
    by (auto simp: find_None_iff)
  with None show ?thesis by (simp add: sync_each_player)
next
  case (Some v)
  from find_Some_set [OF this] have "\<exists>p \<in> set vs. Some (player_id p) = myPlayerId sc"
    by auto
  with Some show ?thesis by (simp add: sync_each_player)
qed

lemma createPeer_simps:
  "peers (createPeer t i c) = obj_set t \<lparr>peer_initiator = i\<rparr> (peers c)"
  "effects (createPeer t i c) = effects c @ [New_SimplePeer t i]"
  "remoteStreams (createPeer t i c) = remoteStreams c"
  by (simp_all add: createPeer_def)

lemma obj_delete_absent: "obj_get obj k = None \<Longrightarrow> obj_delete k obj = obj"
  by (simp add: obj_get_def obj_delete_def map_of_eq_None_iff)

lemma removePeer_simps:
  "peers (removePeer k c) = obj_delete k (peers c)"
  "effects (removePeer k c) = (if obj_get (peers c) k = None then effects c else effects c @ [Peer_destroy k])"
  "remoteStreams (removePeer k c) = remoteStreams c"
  by (cases "obj_get (peers c) k"; simp add: removePeer_def obj_delete_absent)+

lemma connect_close_remoteStreams: "remoteStreams (connect_close sid cp c) = remoteStreams c"
  by (induction cp arbitrary: c) (simp_all add: createPeer_simps)

lemma connect_close_keeps:
  assumes "k \<notin> set cp \<or> obj_get (peers c) k \<noteq> None"
  shows "obj_get (peers (connect_close sid cp c)) k = obj_get (peers c) k \<and>
         filter (\<lambda>e. effect_peer e = k) (effects (connect_close sid cp c))
           = filter (\<lambda>e. effect_peer e = k) (effects c)"
  using assms
proof (induction cp arbitrary: c)
  case Nil
  then show ?case by simp
next
  case (Cons j cp)
  let ?c1 = "if obj_get (peers c) j = None
             then (if sid < j then createPeer j True c else c) else c"
  from Cons.prems have jk: "obj_get (peers c) j = None \<Longrightarrow> j \<noteq> k" by auto
  have same: "obj_get (peers ?c1) k = obj_get (peers c) k"
    and eff: "filter (\<lambda>e. effect_peer e = k) (effects ?c1) = filter (\<lambda>e. effect_peer e = k) (effects c)"
    using jk by (auto simp: createPeer_simps obj_get_set)
  have "k \<notin> set cp \<or> obj_get (peers ?c1) k \<noteq> None"
    using Cons.prems same by auto
  from Cons.IH [OF this] same eff show ?case by simp
qed

lemma connect_close_count_new:
  "count_list (effects (connect_close sid cp c)) (New_SimplePeer k i) =
     count_list (effects c) (New_SimplePeer k i) +
     (if i \<and> k \<in> set cp \<and> obj_get (peers c) k = None \<and> sid < k then 1 else 0)"
proof (induction cp arbitrary: c)
  case Nil
  then show ?case by simp
next
  case (Cons j cp)
  show ?case
    by (auto simp: Cons.IH createPeer_simps obj_get_set)
qed

lemma connect_close_count_destroy:
  "count_list (effects (connect_close sid cp c)) (Peer_destroy r) = count_list (effects c) (Peer_destroy r)"
  by (induction cp arbitrary: c) (simp_all add: createPeer_simps)

lemma disconnect_far_keeps:
  assumes "k \<in> set cp"
  shows "obj_get (peers (disconnect_far cp ks c)) k = obj_get (peers c) k \<and>
         filter (\<lambda>e. effect_peer e = k) (effects (disconnect_far cp ks c))
           = filter (\<lambda>e. effect_peer e = k) (effects c) \<and>
         obj_get (remoteStreams (disconnect_far cp ks c)) k = obj_get (remoteStreams c) k"
  using assms
proof (induction ks arbitrary: c)
  case Nil
  then show ?case by simp
next
  case (Cons j ks)
  then show ?case
    by (auto simp: removePeer_simps obj_get_delete Let_def)
qed

lemma disconnect_far_count_new:
  "count_list (effects (disconnect_far cp ks c)) (New_SimplePeer k i) = count_list (effects c) (New_SimplePeer k i)"
  by (induction ks arbitrary: c) (simp_all add: removePeer_simps Let_def)

lemma disconnect_far_removes:
  assumes "r \<notin> set cp"
  shows "obj_get (peers (disconnect_far cp ks c)) r = (if r \<in> set ks then None else obj_get (peers c) r) \<and>
         obj_get (remoteStreams (disconnect_far cp ks c)) r
           = (if r \<in> set ks then None else obj_get (remoteStreams c) r) \<and>
         count_list (effects (disconnect_far cp ks c)) (Peer_destroy r) =
           count_list (effects c) (Peer_destroy r) +
           (if r \<in> set ks \<and> obj_get (peers c) r \<noteq> None then 1 else 0)"
  using assms
proof (induction ks arbitrary: c)
  case Nil
  then show ?case by simp
next
  case (Cons j ks)
  then show ?case
    by (auto simp: removePeer_simps obj_get_delete Let_def)
qed

lemma connect_close_opens:
  assumes "k \<in> set cp" and "obj_get (peers c) k = None"
  shows "obj_get (peers (connect_close sid cp c)) k
           = (if sid < k then Some \<lparr>peer_initiator = True\<rparr> else None)"
  using assms
proof (induction cp arbitrary: c)
  case Nil
  then show ?case by simp
next
  case (Cons j cp)
  define c1 where "c1 = (if obj_get (peers c) j = None
                         then (if sid < j then createPeer j True c else c) else c)"
  have step: "connect_close sid (j # cp) c = connect_close sid cp c1"
    by (simp add: c1_def)
  have at_k: "obj_get (peers c1) k = (if j = k \<and> sid < k then Some \<lparr>peer_initiator = True\<rparr> else None)"
    using Cons.prems(2) by (simp add: c1_def createPeer_simps obj_get_set)
  show ?case
  proof (cases "j = k \<and> sid < k")
    case True
    then have "obj_get (peers c1) k \<noteq> None" using at_k by simp
    then have "obj_get (peers (connect_close sid cp c1)) k = obj_get (peers c1) k"
      using connect_close_keeps [of k cp c1 sid] by simp
    with True at_k step show ?thesis by simp
  next
    case False
    then have none: "obj_get (peers c1) k = None" using at_k by simp
    show ?thesis
    proof (cases "k \<in> set cp")
      case True
      from Cons.IH [OF True none] step show ?thesis by simp
    next
      case notin: False
      with Cons.prems(1) have "j = k" by simp
      with False have "\<not> sid < k" by simp
      moreover have "obj_get (peers (connect_close sid cp c1)) k = obj_get (peers c1) k"
        using connect_close_keeps [of k cp c1 sid] notin by simp
      ultimately show ?thesis using none step by simp
    qed
  qed
qed

lemma proximityUpdate_far:
  assumes "r \<notin> set cp"
  shows "obj_get (peers (on_proximityUpdate sid cp c)) r = None \<and>
         obj_get (remoteStreams (on_proximityUpdate sid cp c)) r
           = (if obj_get (peers c) r = None then obj_get (remoteStreams c) r else None) \<and>
         count_list (effects (on_proximityUpdate sid cp c)) (Peer_destroy r)
           = count_list (effects c) (Peer_destroy r) + (if obj_get (peers c) r = None then 0 else 1)"
proof -
  let ?c1 = "connect_close sid cp c"
  have same: "obj_get (peers ?c1) r = obj_get (peers c) r"
    using connect_close_keeps [of r cp c sid] assms by simp
  have keys: "r \<in> set (Object_keys (peers ?c1)) \<longleftrightarrow> obj_get (peers c) r \<noteq> None"
    using same by (simp add: keys_iff_get)
  from disconnect_far_removes [OF assms, of "Object_keys (peers ?c1)" ?c1] same keys
  show ?thesis
    by (auto simp: on_proximityUpdate_def Let_def connect_close_count_destroy
        connect_close_remoteStreams)
qed

lemma removePlayer_simps:
  "player (removePlayer r sc) = player sc"
  "obj_get (players (removePlayer r sc)) k = (if k = r then None else obj_get (players sc) k)"
  by (cases "obj_get (players sc) r"; auto simp: removePlayer_def obj_get_delete)+

lemma load_objects_in_order:
  assumes "distinct (map fst (acc @ named_zones objs))"
  shows "load_objects objs acc = acc @ named_zones objs"
  using assms
proof (induction objs arbitrary: acc)
  case Nil
  then show ?case by (simp add: named_zones_def map_filter_simps)
next
  case (Cons obj objs)
  show ?case
  proof (cases "jitsiProp obj")
    case None
    then have "named_zones (obj # objs) = named_zones objs"
      by (simp add: named_zones_def map_filter_simps)
    with Cons None show ?thesis by simp
  next
    case (Some pr)
    let ?e = "(prop_value pr,
               \<lparr>zone_x = object_x obj, zone_y = object_y obj,
                zone_width = object_width obj, zone_height = object_height obj\<rparr>)"
    have named: "named_zones (obj # objs) = ?e # named_zones objs"
      using Some by (simp add: named_zones_def map_filter_simps)
    with Cons.prems have "prop_value pr \<notin> fst ` set acc"
      by auto
    then have "obj_set (prop_value pr) (snd ?e) acc = acc @ [?e]"
      by (simp add: obj_set_absent obj_get_def map_of_eq_None_iff)
    moreover have "distinct (map fst ((acc @ [?e]) @ named_zones objs))"
      using Cons.prems named by simp
    ultimately show ?thesis
      using Cons.IH [of "acc @ [?e]"] Some named by simp
  qed
qed

lemma loadMap_in_file_order:
  assumes "find (\<lambda>layer. layer_name layer = ''Triggers'') layers = Some triggerLayer"
    and "objects triggerLayer = Some objs"
    and "distinct (map fst (named_zones objs))"
  shows "loadMap layers [] = named_zones objs"
  using assms load_objects_in_order [of "[]" objs] by (simp add: loadMap_def)

lemma remdups_skip: "n \<in> set ys \<Longrightarrow> remdups (xs @ n # ys) = remdups (xs @ ys)"
  by (induction xs) auto

lemma first_names_known: "n \<in> set ks \<Longrightarrow> first_names (ks @ n # rest) = first_names (ks @ rest)"
  using remdups_skip [of n "rev ks" "rev rest"] by (simp add: first_names_def)

lemma first_names_distinct: "distinct ns \<Longrightarrow> first_names ns = ns"
  by (simp add: first_names_def distinct_remdups_id)

lemma obj_get_snoc:
  "obj_get (obj @ [(k, v)]) name =
     (case obj_get obj name of None \<Rightarrow> if name = k then Some v else None | Some z \<Rightarrow> Some z)"
  by (induction obj) (auto simp: obj_get_def)

lemma named_zones_Cons:
  "named_zones (obj # objs) =
     (case jitsiProp obj of
        None \<Rightarrow> named_zones objs
      | Some pr \<Rightarrow>
          (prop_value pr,
           \<lparr>zone_x = object_x obj, zone_y = object_y obj,
            zone_width = object_width obj, zone_height = object_height obj\<rparr>) # named_zones objs)"
  by (simp add: named_zones_def map_filter_simps split: option.splits)

lemma load_objects_keys:
  assumes "distinct (Object_keys acc)"
  shows "Object_keys (load_objects objs acc) = first_names (Object_keys acc @ Object_keys (named_zones objs))"
  using assms
proof (induction objs arbitrary: acc)
  case Nil
  then show ?case by (simp add: named_zones_def map_filter_simps Object_keys_def first_names_distinct)
next
  case (Cons obj objs)
  show ?case
  proof (cases "jitsiProp obj")
    case None
    with Cons show ?thesis by (simp add: named_zones_Cons)
  next
    case (Some pr)
    let ?z = "\<lparr>zone_x = object_x obj, zone_y = object_y obj,
               zone_width = object_width obj, zone_height = object_height obj\<rparr>"
    let ?acc = "obj_set (prop_value pr) ?z acc"
    have d: "distinct (Object_keys ?acc)"
      using Cons.prems by (simp add: Object_keys_def obj_set_def distinct_update)
    have keys: "Object_keys ?acc =
                  (if prop_value pr \<in> set (Object_keys acc) then Object_keys acc
                   else Object_keys acc @ [prop_value pr])"
      by (simp add: Object_keys_def obj_set_def update_keys)
    have "Object_keys (load_objects (obj # objs) acc)
            = first_names (Object_keys ?acc @ Object_keys (named_zones objs))"
      using Cons.IH [OF d] Some by simp
    also have "\<dots> = first_names (Object_keys acc @ prop_value pr # Object_keys (named_zones objs))"
      using keys by (simp add: first_names_known)
    finally show ?thesis
      using Some by (simp add: named_zones_Cons Object_keys_def)
  qed
qed

lemma load_objects_get:
  "obj_get (load_objects objs acc) name =
     (case obj_get (rev (named_zones objs)) name of None \<Rightarrow> obj_get acc name | Some z \<Rightarrow> Some z)"
proof (induction objs arbitrary: acc)
  case Nil
  then show ?case by (simp add: named_zones_def map_filter_simps obj_get_def)
next
  case (Cons obj objs)
  show ?case
  proof (cases "jitsiProp obj")
    case None
    with Cons show ?thesis by (simp add: named_zones_Cons)
  next
    case (Some pr)
    then show ?thesis
      using Cons.IH
      by (simp add: named_zones_Cons obj_get_set obj_get_snoc split: option.splits)
  qed
qed

lemma room_Cons:
  "getJitsiRoomForPosition ar ((r, z) # rest) x y =
     (if inside_zone ar z x y then Some r else getJitsiRoomForPosition ar rest x y)"
  by (simp add: inside_zone_def)

lemma room_as_find:
  "getJitsiRoomForPosition ar zs x y = map_option fst (find (\<lambda>(r, z). inside_zone ar z x y) zs)"
proof (induction zs)
  case Nil
  then show ?case by simp
next
  case (Cons e zs)
  obtain r z where e: "e = (r, z)" by (cases e)
  show ?case
    using Cons.IH by (simp only: e room_Cons) simp
qed

lemma room_None_iff:
  "getJitsiRoomForPosition ar zs x y = None \<longleftrightarrow> (\<forall>(r, z) \<in> set zs. \<not> inside_zone ar z x y)"
  by (auto simp: room_as_find find_None_iff)

lemma room_Some_iff:
  "getJitsiRoomForPosition ar zs x y = Some r \<longleftrightarrow>
     (\<exists>i < length zs. fst (zs ! i) = r \<and> inside_zone ar (snd (zs ! i)) x y \<and>
        (\<forall>j < i. \<not> inside_zone ar (snd (zs ! j)) x y))"
proof -
  have "getJitsiRoomForPosition ar zs x y = Some r \<longleftrightarrow>
          (\<exists>e. find (\<lambda>(r, z). inside_zone ar z x y) zs = Some e \<and> fst e = r)"
    by (auto simp: room_as_find)
  also have "\<dots> \<longleftrightarrow>
          (\<exists>e. (\<exists>i < length zs. (case zs ! i of (r, z) \<Rightarrow> inside_zone ar z x y) \<and> e = zs ! i \<and>
                  (\<forall>j < i. \<not> (case zs ! j of (r, z) \<Rightarrow> inside_zone ar z x y))) \<and> fst e = r)"
    by (simp only: find_Some_iff)
  also have "\<dots> \<longleftrightarrow>
          (\<exists>i < length zs. fst (zs ! i) = r \<and> inside_zone ar (snd (zs ! i)) x y \<and>
             (\<forall>j < i. \<not> inside_zone ar (snd (zs ! j)) x y))"
    unfolding case_prod_beta by blast
  finally show ?thesis .
qed

lemma inside_zone_exact:
  "inside_zone exact z x y \<longleftrightarrow>
     zone_x z \<le> x \<and> x \<le> zone_x z + zone_width z \<and>
     zone_y z \<le> y \<and> y \<le> zone_y z + zone_height z"
  by (simp add: inside_zone_def exact_simps)

lemma getPlayer_setPlayerJitsiRoom:
  "obj_get (getPlayer (setPlayerJitsiRoom s room store) s) ''currentJitsiRoom''
     = Some (case room of None \<Rightarrow> ''null'' | Some r \<Rightarrow> if r = [] then ''null'' else r)"
  by (simp add: getPlayer_def setPlayerJitsiRoom_def hSet_def hGetAll_def obj_get_set)

lemma checkJitsiZone_at_most_one: "length (snd (checkJitsiZone ar zs s x y store)) \<le> 1"
  by (simp add: checkJitsiZone_def Let_def split: option.splits)

section \<open>Stale moves\<close>

text \<open>
  C5. A move whose connection id is not in the registry does nothing: the registry
  comes back as it was, no record is made for the id, and the handler emits nothing,
  so that no connection receives a movement broadcast.
\<close>

theorem stale_move_is_noop:
  fixes move :: "player_info js_object \<times> 'a emission list"
  assumes "obj_get registry socket_id = None"
    and "move = on_PLAYER_MOVE socket_id movementData registry"
  shows "move = (registry, []) \<and>
         obj_get (fst move) socket_id = None \<and>
         deliveries conns (snd move) = []"
  using assms by (simp add: on_PLAYER_MOVE_def deliveries_def)

theorem stale_move_is_noop_witness:
  "obj_get [(''a'', spawn ''a'')] ''b'' = None \<and>
   on_PLAYER_MOVE ''b'' \<lparr>move_x = 1, move_y = 2, move_anim = ''walk''\<rparr> [(''a'', spawn ''a'')]
     = ([(''a'', spawn ''a'')], ([] :: unit emission list)) \<and>
   deliveries [''a'', ''b'']
     (snd (on_PLAYER_MOVE ''b'' \<lparr>move_x = 1, move_y = 2, move_anim = ''walk''\<rparr> [(''a'', spawn ''a'')])
        :: unit emission list) = []"
proof -
  have absent: "obj_get [(''a'', spawn ''a'')] ''b'' = None"
    by (simp add: obj_get_def)
  show ?thesis
    using absent
      stale_move_is_noop [OF absent refl, where 'a = unit and conns = "[''a'', ''b'']"
        and movementData = "\<lparr>move_x = 1, move_y = 2, move_anim = ''walk''\<rparr>"]
    by blast
qed

section \<open>Registration\<close>

text \<open>
  C7, as the claim states it, fails: the connection handler has no failure, and a
  connection whose id already has a record (here one that had moved to (10, 20)) gets
  that record replaced by a fresh one at the spawn position.
\<close>

theorem connect_overwrites_counterexample:
  "obj_get [(''a'', \<lparr>player_id = ''a'', player_x = 10, player_y = 20, player_anim = ''walk''\<rparr>)] ''a''
     = Some \<lparr>player_id = ''a'', player_x = 10, player_y = 20, player_anim = ''walk''\<rparr> \<and>
   on_CONNECT ''a'' [(''a'', \<lparr>player_id = ''a'', player_x = 10, player_y = 20, player_anim = ''walk''\<rparr>)]
     = ([(''a'', \<lparr>player_id = ''a'', player_x = 400, player_y = 300, player_anim = ''idle''\<rparr>)],
        [Socket_emit ''a'' (PLAYERS_SYNC
           [(''a'', \<lparr>player_id = ''a'', player_x = 400, player_y = 300, player_anim = ''idle''\<rparr>)]),
         Broadcast_emit ''a'' (PLAYER_JOIN
           \<lparr>player_id = ''a'', player_x = 400, player_y = 300, player_anim = ''idle''\<rparr>)
         :: unit emission])"
  by (simp add: on_CONNECT_def obj_get_def obj_set_def spawn_def Let_def)

text \<open>
  C7, amended. The connection handler never fails. It stores under the connection id
  a fresh record at the default spawn position (400, 300) with animation idle, and
  leaves the records of all other ids as they were. For an id that had no record the
  record is created, after the existing ones; for an id that had one, the old record
  is overwritten.
\<close>

theorem connect_respawns:
  fixes joined :: "player_info js_object \<times> 'a emission list"
  assumes "joined = on_CONNECT socket_id registry"
  shows "obj_get (fst joined) socket_id
           = Some \<lparr>player_id = socket_id, player_x = 400, player_y = 300, player_anim = ''idle''\<rparr> \<and>
         (\<forall>k. k \<noteq> socket_id \<longrightarrow> obj_get (fst joined) k = obj_get registry k) \<and>
         (obj_get registry socket_id = None \<longrightarrow>
            fst joined = registry @ [(socket_id, \<lparr>player_id = socket_id, player_x = 400, player_y = 300, player_anim = ''idle''\<rparr>)])"
  using assms
  by (simp add: on_CONNECT_def Let_def obj_get_set spawn_def obj_set_absent)

theorem connect_respawns_witness:
  "obj_get (fst (on_CONNECT ''b'' [(''a'', spawn ''a'')] :: player_info js_object \<times> unit emission list)) ''b''
     = Some \<lparr>player_id = ''b'', player_x = 400, player_y = 300, player_anim = ''idle''\<rparr> \<and>
   obj_get (fst (on_CONNECT ''b'' [(''a'', spawn ''a'')] :: player_info js_object \<times> unit emission list)) ''a''
     = Some (spawn ''a'') \<and>
   fst (on_CONNECT ''b'' [(''a'', spawn ''a'')] :: player_info js_object \<times> unit emission list)
     = [(''a'', spawn ''a''), (''b'', \<lparr>player_id = ''b'', player_x = 400, player_y = 300, player_anim = ''idle''\<rparr>)]"
proof -
  have absent: "obj_get [(''a'', spawn ''a'')] ''b'' = None"
    and present: "obj_get [(''a'', spawn ''a'')] ''a'' = Some (spawn ''a'')"
    by (simp_all add: obj_get_def)
  have diff: "''a'' \<noteq> ''b''" by simp
  show ?thesis
    using absent present diff
      connect_respawns [OF refl, where 'a = unit and socket_id = "''b''"
        and registry = "[(''a'', spawn ''a'')]"]
    by auto
qed

section \<open>The signaling relay\<close>

text \<open>
  C6, as the claim states it, fails: the relay tests the payload. Of two requests from
  the same sender to the same connected target, the one whose payload is the number 0
  is dropped and the one whose payload is the number 1 is delivered.
\<close>

theorem relay_depends_on_payload_counterexample:
  "''B'' \<in> set [''A'', ''B''] \<and>
   deliveries [''A'', ''B'']
     (on_WEBRTC_SIGNAL ''A'' \<lparr>targetId = Some ''B'', signal = (JNumber 0 :: unit js_value)\<rparr>) = [] \<and>
   deliveries [''A'', ''B'']
     (on_WEBRTC_SIGNAL ''A'' \<lparr>targetId = Some ''B'', signal = (JNumber 1 :: unit js_value)\<rparr>)
     = [(''B'', WEBRTC_SIGNAL ''A'' (JNumber 1))]"
  by (simp add: on_WEBRTC_SIGNAL_def falsy_id_def deliveries_def)

text \<open>
  C6, amended. A signal request whose target id or payload is falsy (missing, null,
  false, 0 or the empty string) is dropped: nothing is emitted, to the sender or to
  anyone. For every other request the relay emits once, to the room of the target id,
  a message holding the id of the sender's connection and the payload as it came; the
  message reaches the connection with the target id and no other, once, and nobody
  when no connection has that id. Beyond the test for a falsy value the relay does not
  look into the payload.
\<close>

theorem relay_contract:
  assumes "distinct conns"
  shows "(falsy_id (targetId data) \<or> \<not> truthy (signal data) \<longrightarrow>
            on_WEBRTC_SIGNAL sender data = []) \<and>
         (\<forall>t. targetId data = Some t \<and> t \<noteq> [] \<and> truthy (signal data) \<longrightarrow>
            on_WEBRTC_SIGNAL sender data = [To_emit t (WEBRTC_SIGNAL sender (signal data))] \<and>
            deliveries conns (on_WEBRTC_SIGNAL sender data)
              = (if t \<in> set conns then [(t, WEBRTC_SIGNAL sender (signal data))] else []))"
  using assms
  by (simp add: on_WEBRTC_SIGNAL_def falsy_id_def deliveries_def filter_eq_distinct)

theorem relay_contract_witness:
  "distinct [''A'', ''B''] \<and>
   on_WEBRTC_SIGNAL ''A'' \<lparr>targetId = Some ''B'', signal = JObject (7 :: nat)\<rparr>
     = [To_emit ''B'' (WEBRTC_SIGNAL ''A'' (JObject 7))] \<and>
   deliveries [''A'', ''B''] (on_WEBRTC_SIGNAL ''A'' \<lparr>targetId = Some ''B'', signal = JObject (7 :: nat)\<rparr>)
     = [(''B'', WEBRTC_SIGNAL ''A'' (JObject 7))] \<and>
   deliveries [''A'', ''B''] (on_WEBRTC_SIGNAL ''A'' \<lparr>targetId = Some ''C'', signal = JObject (7 :: nat)\<rparr>)
     = [] \<and>
   on_WEBRTC_SIGNAL ''A'' \<lparr>targetId = None, signal = JObject (7 :: nat)\<rparr> = [] \<and>
   on_WEBRTC_SIGNAL ''A'' \<lparr>targetId = Some ''B'', signal = (JUndefined :: nat js_value)\<rparr> = []"
proof -
  have d: "distinct [''A'', ''B'']" by simp
  have "targetId \<lparr>targetId = Some ''B'', signal = JObject (7 :: nat)\<rparr> = Some ''B'' \<and> ''B'' \<noteq> [] \<and>
        truthy (signal \<lparr>targetId = Some ''B'', signal = JObject (7 :: nat)\<rparr>)"
    by simp
  with relay_contract [OF d, of "\<lparr>targetId = Some ''B'', signal = JObject (7 :: nat)\<rparr>" "''A''"]
  have toB:
    "on_WEBRTC_SIGNAL ''A'' \<lparr>targetId = Some ''B'', signal = JObject (7 :: nat)\<rparr>
       = [To_emit ''B'' (WEBRTC_SIGNAL ''A'' (signal \<lparr>targetId = Some ''B'', signal = JObject (7 :: nat)\<rparr>))] \<and>
     deliveries [''A'', ''B''] (on_WEBRTC_SIGNAL ''A'' \<lparr>targetId = Some ''B'', signal = JObject (7 :: nat)\<rparr>)
       = (if ''B'' \<in> set [''A'', ''B'']
          then [(''B'', WEBRTC_SIGNAL ''A'' (signal \<lparr>targetId = Some ''B'', signal = JObject (7 :: nat)\<rparr>))]
          else [])"
    by blast
  have 1: "on_WEBRTC_SIGNAL ''A'' \<lparr>targetId = Some ''B'', signal = JObject (7 :: nat)\<rparr>
             = [To_emit ''B'' (WEBRTC_SIGNAL ''A'' (JObject 7))]"
    using toB [THEN conjunct1] by simp
  have 2: "deliveries [''A'', ''B''] (on_WEBRTC_SIGNAL ''A'' \<lparr>targetId = Some ''B'', signal = JObject (7 :: nat)\<rparr>)
             = [(''B'', WEBRTC_SIGNAL ''A'' (JObject 7))]"
    using toB [THEN conjunct2] by simp
  have "targetId \<lparr>targetId = Some ''C'', signal = JObject (7 :: nat)\<rparr> = Some ''C'' \<and> ''C'' \<noteq> [] \<and>
        truthy (signal \<lparr>targetId = Some ''C'', signal = JObject (7 :: nat)\<rparr>)"
    by simp
  with relay_contract [OF d, of "\<lparr>targetId = Some ''C'', signal = JObject (7 :: nat)\<rparr>" "''A''"]
  have toC:
    "on_WEBRTC_SIGNAL ''A'' \<lparr>targetId = Some ''C'', signal = JObject (7 :: nat)\<rparr>
       = [To_emit ''C'' (WEBRTC_SIGNAL ''A'' (signal \<lparr>targetId = Some ''C'', signal = JObject (7 :: nat)\<rparr>))] \<and>
     deliveries [''A'', ''B''] (on_WEBRTC_SIGNAL ''A'' \<lparr>targetId = Some ''C'', signal = JObject (7 :: nat)\<rparr>)
       = (if ''C'' \<in> set [''A'', ''B'']
          then [(''C'', WEBRTC_SIGNAL ''A'' (signal \<lparr>targetId = Some ''C'', signal = JObject (7 :: nat)\<rparr>))]
          else [])"
    by blast
  have 3: "deliveries [''A'', ''B''] (on_WEBRTC_SIGNAL ''A'' \<lparr>targetId = Some ''C'', signal = JObject (7 :: nat)\<rparr>)
             = []"
    using toC [THEN conjunct2] by simp
  have "falsy_id (targetId \<lparr>targetId = None, signal = JObject (7 :: nat)\<rparr>)"
    by (simp add: falsy_id_def)
  with relay_contract [OF d, of "\<lparr>targetId = None, signal = JObject (7 :: nat)\<rparr>" "''A''"]
  have 4: "on_WEBRTC_SIGNAL ''A'' \<lparr>targetId = None, signal = JObject (7 :: nat)\<rparr> = []"
    by blast
  have "\<not> truthy (signal \<lparr>targetId = Some ''B'', signal = (JUndefined :: nat js_value)\<rparr>)"
    by simp
  with relay_contract [OF d, of "\<lparr>targetId = Some ''B'', signal = (JUndefined :: nat js_value)\<rparr>" "''A''"]
  have 5: "on_WEBRTC_SIGNAL ''A'' \<lparr>targetId = Some ''B'', signal = (JUndefined :: nat js_value)\<rparr> = []"
    by blast
  from d 1 2 3 4 5 show ?thesis by blast
qed

section \<open>Symmetry of proximity\<close>



section \<open>The snapshot for a joining client\<close>

text \<open>
  C10. On a connection the server sends the joining socket the \<^verbatim>\<open>players\<close> object as it
  is after the new record was stored: the snapshot holds the joiner's own record, at
  the spawn position (400, 300) with animation idle, and every record that other
  connections had before. The client makes its local player only from a record of the
  snapshot that carries its own id: it has one after the snapshot exactly when such a
  record was in it, and from the server's snapshot it gets one at (400, 300).
\<close>

theorem snapshot_includes_joiner:
  fixes joined :: "player_info js_object \<times> 'a emission list"
  assumes "registry_ok registry" and "joined = on_CONNECT socket_id registry"
  shows "snd joined = [Socket_emit socket_id (PLAYERS_SYNC (fst joined)),
                       Broadcast_emit socket_id (PLAYER_JOIN (spawn socket_id))] \<and>
         obj_get (fst joined) socket_id
           = Some \<lparr>player_id = socket_id, player_x = 400, player_y = 300, player_anim = ''idle''\<rparr> \<and>
         (\<forall>k p. k \<noteq> socket_id \<and> obj_get registry k = Some p \<longrightarrow> obj_get (fst joined) k = Some p) \<and>
         player (on_PLAYERS_SYNC (fst joined) (new_scene (Some socket_id)))
           = Some \<lparr>sprite_x = 400, sprite_y = 300\<rparr> \<and>
         (\<forall>snapshot me. player (on_PLAYERS_SYNC snapshot (new_scene me)) \<noteq> None \<longleftrightarrow>
            (\<exists>p \<in> set (Object_values snapshot). Some (player_id p) = me))"
proof -
  have ok: "registry_ok (fst joined)"
    using assms by (simp add: registry_ok_on_CONNECT)
  have own: "obj_get (fst joined) socket_id = Some (spawn socket_id)"
    using assms(2) by (simp add: on_CONNECT_def Let_def obj_get_set)
  have others: "\<forall>k p. k \<noteq> socket_id \<and> obj_get registry k = Some p \<longrightarrow> obj_get (fst joined) k = Some p"
    using assms(2) by (simp add: on_CONNECT_def Let_def obj_get_set)
  have sent: "snd joined = [Socket_emit socket_id (PLAYERS_SYNC (fst joined)),
                            Broadcast_emit socket_id (PLAYER_JOIN (spawn socket_id))]"
    using assms(2) by (simp add: on_CONNECT_def Let_def)
  have mine: "player (on_PLAYERS_SYNC (fst joined) (new_scene (Some socket_id)))
                = Some \<lparr>sprite_x = 400, sprite_y = 300\<rparr>"
    using find_registry_values [OF ok, of socket_id] own
    by (simp add: on_PLAYERS_SYNC_def sync_each_player new_scene_def sprite_at_def spawn_def)
  have depends: "\<forall>snapshot me. player (on_PLAYERS_SYNC snapshot (new_scene me)) \<noteq> None \<longleftrightarrow>
                   (\<exists>p \<in> set (Object_values snapshot). Some (player_id p) = me)"
  proof (intro allI)
    fix snapshot me
    show "player (on_PLAYERS_SYNC snapshot (new_scene me)) \<noteq> None \<longleftrightarrow>
            (\<exists>p \<in> set (Object_values snapshot). Some (player_id p) = me)"
      using sync_each_player_iff [of "Object_values snapshot" "new_scene me"]
      by (simp add: on_PLAYERS_SYNC_def new_scene_def)
  qed
  from sent own others mine depends show ?thesis
    by (simp add: spawn_def)
qed

theorem snapshot_includes_joiner_witness:
  "registry_ok [(''a'', spawn ''a'')] \<and>
   snd (on_CONNECT ''b'' [(''a'', spawn ''a'')] :: player_info js_object \<times> unit emission list)
     = [Socket_emit ''b'' (PLAYERS_SYNC (fst (on_CONNECT ''b'' [(''a'', spawn ''a'')]
                                               :: player_info js_object \<times> unit emission list))),
        Broadcast_emit ''b'' (PLAYER_JOIN (spawn ''b''))] \<and>
   obj_get (fst (on_CONNECT ''b'' [(''a'', spawn ''a'')] :: player_info js_object \<times> unit emission list)) ''b''
     = Some \<lparr>player_id = ''b'', player_x = 400, player_y = 300, player_anim = ''idle''\<rparr> \<and>
   obj_get (fst (on_CONNECT ''b'' [(''a'', spawn ''a'')] :: player_info js_object \<times> unit emission list)) ''a''
     = Some (spawn ''a'') \<and>
   player (on_PLAYERS_SYNC
             (fst (on_CONNECT ''b'' [(''a'', spawn ''a'')] :: player_info js_object \<times> unit emission list))
             (new_scene (Some ''b'')))
     = Some \<lparr>sprite_x = 400, sprite_y = 300\<rparr>"
proof -
  have ok: "registry_ok [(''a'', spawn ''a'')]"
    by (simp add: registry_ok_def Object_keys_def spawn_def)
  have before: "''a'' \<noteq> ''b'' \<and> obj_get [(''a'', spawn ''a'')] ''a'' = Some (spawn ''a'')"
    by (simp add: obj_get_def)
  note joined = snapshot_includes_joiner [OF ok refl, where 'a = unit and socket_id = "''b''"]
  note sent = joined [THEN conjunct1]
  note own = joined [THEN conjunct2, THEN conjunct1]
  note others = joined [THEN conjunct2, THEN conjunct2, THEN conjunct1, rule_format,
      of "''a''" "spawn ''a''", OF before]
  note mine = joined [THEN conjunct2, THEN conjunct2, THEN conjunct2, THEN conjunct1]
  from ok sent own others mine show ?thesis
    by (intro conjI)
qed

section \<open>Sessions between peers\<close>

text \<open>
  C2. When a peer already exists for an id and a recomputation reports that id among
  the close players again, the handler does nothing for it: the same peer stays in
  \<^verbatim>\<open>peers\<close>, nothing is done to the library for that id (no second peer is made, so
  no second negotiation starts, and none is destroyed), and its stream stays.
\<close>

theorem open_is_idempotent:
  assumes "obj_get (peers c) k = Some p" and "k \<in> set closePlayers"
  shows "obj_get (peers (on_proximityUpdate socket_id closePlayers c)) k = Some p \<and>
         filter (\<lambda>e. effect_peer e = k) (effects (on_proximityUpdate socket_id closePlayers c))
           = filter (\<lambda>e. effect_peer e = k) (effects c) \<and>
         obj_get (remoteStreams (on_proximityUpdate socket_id closePlayers c)) k
           = obj_get (remoteStreams c) k"
proof -
  let ?c1 = "connect_close socket_id closePlayers c"
  have first: "obj_get (peers ?c1) k = Some p \<and>
               filter (\<lambda>e. effect_peer e = k) (effects ?c1) = filter (\<lambda>e. effect_peer e = k) (effects c)"
    using connect_close_keeps [of k closePlayers c socket_id] assms(1) by simp
  from disconnect_far_keeps [OF assms(2), of "Object_keys (peers ?c1)" ?c1] first
  show ?thesis
    by (simp add: on_proximityUpdate_def Let_def connect_close_remoteStreams)
qed

theorem open_is_idempotent_witness:
  "obj_get (peers \<lparr>peers = [(''b'', \<lparr>peer_initiator = True\<rparr>)], remoteStreams = [(''b'', 1)],
                   effects = [New_SimplePeer ''b'' True :: unit peer_effect]\<rparr>) ''b''
     = Some \<lparr>peer_initiator = True\<rparr> \<and>
   ''b'' \<in> set [''b''] \<and>
   obj_get (peers (on_proximityUpdate ''a'' [''b'']
        \<lparr>peers = [(''b'', \<lparr>peer_initiator = True\<rparr>)], remoteStreams = [(''b'', 1)],
         effects = [New_SimplePeer ''b'' True :: unit peer_effect]\<rparr>)) ''b''
     = Some \<lparr>peer_initiator = True\<rparr> \<and>
   filter (\<lambda>e. effect_peer e = ''b'') (effects (on_proximityUpdate ''a'' [''b'']
        \<lparr>peers = [(''b'', \<lparr>peer_initiator = True\<rparr>)], remoteStreams = [(''b'', 1)],
         effects = [New_SimplePeer ''b'' True :: unit peer_effect]\<rparr>))
     = [New_SimplePeer ''b'' True]"
proof -
  let ?c = "\<lparr>peers = [(''b'', \<lparr>peer_initiator = True\<rparr>)], remoteStreams = [(''b'', 1)],
             effects = [New_SimplePeer ''b'' True :: unit peer_effect]\<rparr>"
  have active: "obj_get (peers ?c) ''b'' = Some \<lparr>peer_initiator = True\<rparr>"
    by (simp add: obj_get_def)
  have close: "''b'' \<in> set [''b'']" by simp
  note again = open_is_idempotent [OF active close, of "''a''"]
  have log: "filter (\<lambda>e. effect_peer e = ''b'') (effects (on_proximityUpdate ''a'' [''b''] ?c))
               = [New_SimplePeer ''b'' True]"
    using again [THEN conjunct2, THEN conjunct1] by simp
  from active close again [THEN conjunct1] log show ?thesis
    by (intro conjI)
qed

text \<open>
  C3. For two distinct connection ids \<open>a\<close> and \<open>b\<close> that have no peer for each other
  yet, when each client finds the other among its close players, exactly one of the
  two handlers makes a peer, as initiator: the one whose own id is the smaller in the
  lexicographic order of the ids. Each side decides this from the two ids alone; the
  other side makes no peer in the handler.
\<close>

theorem initiator_tie_break:
  assumes "a \<noteq> b"
    and "obj_get (peers ca) b = None" and "obj_get (peers cb) a = None"
    and "b \<in> set closeA" and "a \<in> set closeB"
  shows "(a < b) \<noteq> (b < a) \<and>
         (\<forall>i. count_list (effects (on_proximityUpdate a closeA ca)) (New_SimplePeer b i)
                = count_list (effects ca) (New_SimplePeer b i) + (if i \<and> a < b then 1 else 0)) \<and>
         (\<forall>i. count_list (effects (on_proximityUpdate b closeB cb)) (New_SimplePeer a i)
                = count_list (effects cb) (New_SimplePeer a i) + (if i \<and> b < a then 1 else 0)) \<and>
         obj_get (peers (on_proximityUpdate a closeA ca)) b
           = (if a < b then Some \<lparr>peer_initiator = True\<rparr> else None) \<and>
         obj_get (peers (on_proximityUpdate b closeB cb)) a
           = (if b < a then Some \<lparr>peer_initiator = True\<rparr> else None)"
proof -
  have one: "(a < b) \<noteq> (b < a)"
    using assms(1) by auto
  have count: "count_list (effects (on_proximityUpdate s cp c)) (New_SimplePeer k i)
                 = count_list (effects c) (New_SimplePeer k i) + (if i \<and> s < k then 1 else 0)"
    if "k \<in> set cp" and "obj_get (peers c) k = None" for s k cp i and c :: "'z client"
    using that
    by (simp add: on_proximityUpdate_def Let_def disconnect_far_count_new connect_close_count_new)
  have made: "obj_get (peers (on_proximityUpdate s cp c)) k
                = (if s < k then Some \<lparr>peer_initiator = True\<rparr> else None)"
    if "k \<in> set cp" and "obj_get (peers c) k = None" for s k cp and c :: "'z client"
    using disconnect_far_keeps [OF that(1), of "Object_keys (peers (connect_close s cp c))"
        "connect_close s cp c"] connect_close_opens [OF that, of s]
    by (simp add: on_proximityUpdate_def Let_def)
  from one count [OF assms(4) assms(2)] count [OF assms(5) assms(3)]
    made [OF assms(4) assms(2)] made [OF assms(5) assms(3)]
  show ?thesis by simp
qed

theorem initiator_tie_break_witness:
  "''abc'' \<noteq> ''abd'' \<and>
   obj_get (peers \<lparr>peers = [], remoteStreams = [], effects = ([] :: unit peer_effect list)\<rparr>) ''abd'' = None \<and>
   obj_get (peers \<lparr>peers = [], remoteStreams = [], effects = ([] :: unit peer_effect list)\<rparr>) ''abc'' = None \<and>
   ''abd'' \<in> set [''abd''] \<and> ''abc'' \<in> set [''abc''] \<and>
   count_list (effects (on_proximityUpdate ''abc'' [''abd'']
       \<lparr>peers = [], remoteStreams = [], effects = ([] :: unit peer_effect list)\<rparr>))
     (New_SimplePeer ''abd'' True) = 1 \<and>
   count_list (effects (on_proximityUpdate ''abd'' [''abc'']
       \<lparr>peers = [], remoteStreams = [], effects = ([] :: unit peer_effect list)\<rparr>))
     (New_SimplePeer ''abc'' True) = 0"
proof -
  let ?c = "\<lparr>peers = [], remoteStreams = [], effects = ([] :: unit peer_effect list)\<rparr>"
  have ne: "''abc'' \<noteq> ''abd''" by simp
  have nb: "obj_get (peers ?c) ''abd'' = None" and na: "obj_get (peers ?c) ''abc'' = None"
    by (simp_all add: obj_get_def)
  have cb: "''abd'' \<in> set [''abd'']" and ca: "''abc'' \<in> set [''abc'']" by simp_all
  have lt: "''abc'' < ''abd''" and nlt: "\<not> ''abd'' < ''abc''"
    by (simp_all add: less_char_def)
  note tie = initiator_tie_break [OF ne nb na cb ca]
  have 1: "count_list (effects (on_proximityUpdate ''abc'' [''abd''] ?c)) (New_SimplePeer ''abd'' True) = 1"
    using tie [THEN conjunct2, THEN conjunct1, rule_format, of True] lt by simp
  have 2: "count_list (effects (on_proximityUpdate ''abd'' [''abc''] ?c)) (New_SimplePeer ''abc'' True) = 0"
    using tie [THEN conjunct2, THEN conjunct2, THEN conjunct1, rule_format, of True] nlt by simp
  from ne nb na cb ca 1 2 show ?thesis
    by (intro conjI)
qed

text \<open>
  C4. When a connection \<open>r\<close> is lost the server deletes its record and announces the
  departure once, to every socket. A client that holds a peer for \<open>r\<close> and has a local
  player removes the sprite of \<open>r\<close>; its next recomputation then runs, and after it the
  client holds no peer and no stream for \<open>r\<close>, the peer having been destroyed exactly
  once.
\<close>

theorem disconnect_closes_once:
  fixes left :: "player_info js_object \<times> 'a emission list"
  assumes "left = on_DISCONNECT r registry"
    and "player sc \<noteq> None"
    and "obj_get (peers c) r = Some p"
  shows "obj_get (fst left) r = None \<and>
         snd left = [Io_emit (PLAYER_LEAVE r)] \<and>
         checkProximity ar (on_PLAYER_LEAVE r sc) \<noteq> None \<and>
         obj_get (peers (recompute ar socket_id (on_PLAYER_LEAVE r sc) c)) r = None \<and>
         obj_get (remoteStreams (recompute ar socket_id (on_PLAYER_LEAVE r sc) c)) r = None \<and>
         count_list (effects (recompute ar socket_id (on_PLAYER_LEAVE r sc) c)) (Peer_destroy r)
           = count_list (effects c) (Peer_destroy r) + 1"
proof -
  let ?sc = "on_PLAYER_LEAVE r sc"
  from assms(2) obtain cp where cp: "checkProximity ar ?sc = Some cp"
    by (auto simp: checkProximity_def on_PLAYER_LEAVE_def removePlayer_simps)
  have "r \<notin> set cp"
    using checkProximity_mem [OF cp, of r]
    by (simp add: on_PLAYER_LEAVE_def removePlayer_simps)
  from proximityUpdate_far [OF this, of socket_id c] cp assms(1,3)
  show ?thesis
    by (simp add: recompute_def on_DISCONNECT_def obj_get_delete)
qed

theorem disconnect_closes_once_witness:
  "player \<lparr>players = [(''r'', \<lparr>sprite_x = 400, sprite_y = 300\<rparr>)], myPlayerId = Some ''a'',
           player = Some \<lparr>sprite_x = 410, sprite_y = 300\<rparr>\<rparr> \<noteq> None \<and>
   obj_get (peers \<lparr>peers = [(''r'', \<lparr>peer_initiator = True\<rparr>)], remoteStreams = [(''r'', 1)],
                   effects = [New_SimplePeer ''r'' True :: unit peer_effect]\<rparr>) ''r''
     = Some \<lparr>peer_initiator = True\<rparr> \<and>
   obj_get (fst (on_DISCONNECT ''r'' [(''a'', spawn ''a''), (''r'', spawn ''r'')]
                   :: player_info js_object \<times> unit emission list)) ''r'' = None \<and>
   obj_get (peers (recompute exact ''a''
        (on_PLAYER_LEAVE ''r''
           \<lparr>players = [(''r'', \<lparr>sprite_x = 400, sprite_y = 300\<rparr>)], myPlayerId = Some ''a'',
            player = Some \<lparr>sprite_x = 410, sprite_y = 300\<rparr>\<rparr>)
        \<lparr>peers = [(''r'', \<lparr>peer_initiator = True\<rparr>)], remoteStreams = [(''r'', 1)],
         effects = [New_SimplePeer ''r'' True :: unit peer_effect]\<rparr>)) ''r'' = None \<and>
   count_list (effects (recompute exact ''a''
        (on_PLAYER_LEAVE ''r''
           \<lparr>players = [(''r'', \<lparr>sprite_x = 400, sprite_y = 300\<rparr>)], myPlayerId = Some ''a'',
            player = Some \<lparr>sprite_x = 410, sprite_y = 300\<rparr>\<rparr>)
        \<lparr>peers = [(''r'', \<lparr>peer_initiator = True\<rparr>)], remoteStreams = [(''r'', 1)],
         effects = [New_SimplePeer ''r'' True :: unit peer_effect]\<rparr>)) (Peer_destroy ''r'') = 1"
proof -
  let ?sc = "\<lparr>players = [(''r'', \<lparr>sprite_x = 400, sprite_y = 300\<rparr>)], myPlayerId = Some ''a'',
              player = Some \<lparr>sprite_x = 410, sprite_y = 300\<rparr>\<rparr>"
  let ?c = "\<lparr>peers = [(''r'', \<lparr>peer_initiator = True\<rparr>)], remoteStreams = [(''r'', 1)],
             effects = [New_SimplePeer ''r'' True :: unit peer_effect]\<rparr>"
  have local: "player ?sc \<noteq> None" by simp
  have active: "obj_get (peers ?c) ''r'' = Some \<lparr>peer_initiator = True\<rparr>"
    by (simp add: obj_get_def)
  note closed = disconnect_closes_once [OF refl local active, where 'a = unit
      and registry = "[(''a'', spawn ''a''), (''r'', spawn ''r'')]" and socket_id = "''a''" and ar = exact]
  have once: "count_list (effects (recompute exact ''a'' (on_PLAYER_LEAVE ''r'' ?sc) ?c)) (Peer_destroy ''r'') = 1"
    using closed [THEN conjunct2, THEN conjunct2, THEN conjunct2, THEN conjunct2, THEN conjunct2]
    by simp
  from local active closed [THEN conjunct1]
    closed [THEN conjunct2, THEN conjunct2, THEN conjunct2, THEN conjunct1] once
  show ?thesis
    by (intro conjI)
qed

section \<open>Zones\<close>

text \<open>
  C9. The loaded zones are the table that \<open>loadMap\<close> makes from the map, starting from
  an empty one. \<open>getJitsiRoomForPosition\<close> gives no room exactly when no loaded zone
  contains the point, both bounds of the rectangle included (the far bounds as the
  arithmetic computes them), and gives the room \<open>r\<close> exactly when \<open>r\<close> is the room of
  the first zone of the table that contains the point. The table of a map with a
  trigger layer holds the room names of the layer's objects in the order of their
  first appearance in the file, each with the rectangle of its last appearance; so
  when the names are all different it is the list of the map's zones in the order of
  the file, and of several zones that contain the point the first loaded wins. A map
  without a trigger layer, or whose trigger layer has no objects, loads no zone.
\<close>

theorem zone_membership:
  assumes "table = loadMap layers []"
  shows "(getJitsiRoomForPosition ar table x y = None \<longleftrightarrow>
            (\<forall>(r, z) \<in> set table. \<not> inside_zone ar z x y)) \<and>
         (\<forall>r. getJitsiRoomForPosition ar table x y = Some r \<longleftrightarrow>
            (\<exists>i < length table.
               fst (table ! i) = r \<and> inside_zone ar (snd (table ! i)) x y \<and>
               (\<forall>j < i. \<not> inside_zone ar (snd (table ! j)) x y))) \<and>
         (\<forall>triggerLayer objs.
            find (\<lambda>layer. layer_name layer = ''Triggers'') layers = Some triggerLayer \<and>
            objects triggerLayer = Some objs \<longrightarrow>
            Object_keys table = first_names (Object_keys (named_zones objs)) \<and>
            (\<forall>name. obj_get table name = obj_get (rev (named_zones objs)) name) \<and>
            (distinct (Object_keys (named_zones objs)) \<longrightarrow> table = named_zones objs)) \<and>
         (find (\<lambda>layer. layer_name layer = ''Triggers'') layers = None \<or>
          (\<exists>triggerLayer. find (\<lambda>layer. layer_name layer = ''Triggers'') layers = Some triggerLayer \<and>
             objects triggerLayer = None) \<longrightarrow>
            table = [])"
proof (intro conjI allI impI)
  show "getJitsiRoomForPosition ar table x y = None \<longleftrightarrow>
          (\<forall>(r, z) \<in> set table. \<not> inside_zone ar z x y)"
    by (rule room_None_iff)
next
  fix r
  show "getJitsiRoomForPosition ar table x y = Some r \<longleftrightarrow>
          (\<exists>i < length table.
             fst (table ! i) = r \<and> inside_zone ar (snd (table ! i)) x y \<and>
             (\<forall>j < i. \<not> inside_zone ar (snd (table ! j)) x y))"
    by (rule room_Some_iff)
next
  fix triggerLayer objs
  assume layer: "find (\<lambda>layer. layer_name layer = ''Triggers'') layers = Some triggerLayer \<and>
                 objects triggerLayer = Some objs"
  then have table: "table = load_objects objs []"
    using assms by (simp add: loadMap_def)
  show "Object_keys table = first_names (Object_keys (named_zones objs))"
    using load_objects_keys [of "[]" objs] by (simp add: table Object_keys_def)
  show "obj_get table name = obj_get (rev (named_zones objs)) name" for name
    using load_objects_get [of objs "[]" name] by (simp add: table obj_get_Nil split: option.splits)
  show "table = named_zones objs" if "distinct (Object_keys (named_zones objs))"
    using that load_objects_in_order [of "[]" objs] by (simp add: table Object_keys_def)
next
  assume "find (\<lambda>layer. layer_name layer = ''Triggers'') layers = None \<or>
          (\<exists>triggerLayer. find (\<lambda>layer. layer_name layer = ''Triggers'') layers = Some triggerLayer \<and>
             objects triggerLayer = None)"
  then show "table = []"
    using assms by (auto simp: loadMap_def)
qed

theorem zone_membership_witness:
  "distinct (Object_keys (named_zones
         [\<lparr>object_x = 0, object_y = 0, object_width = 50, object_height = 50,
           properties = Some [\<lparr>prop_name = ''jitsiRoom'', prop_value = ''conf1''\<rparr>]\<rparr>,
          \<lparr>object_x = 500, object_y = 0, object_width = 10, object_height = 10, properties = None\<rparr>,
          \<lparr>object_x = 40, object_y = 40, object_width = 50, object_height = 50,
           properties = Some [\<lparr>prop_name = ''jitsiRoom'', prop_value = ''conf2''\<rparr>]\<rparr>])) \<and>
   loadMap
     [\<lparr>layer_name = ''Floor'', objects = None\<rparr>,
      \<lparr>layer_name = ''Triggers'', objects = Some
         [\<lparr>object_x = 0, object_y = 0, object_width = 50, object_height = 50,
           properties = Some [\<lparr>prop_name = ''jitsiRoom'', prop_value = ''conf1''\<rparr>]\<rparr>,
          \<lparr>object_x = 500, object_y = 0, object_width = 10, object_height = 10, properties = None\<rparr>,
          \<lparr>object_x = 40, object_y = 40, object_width = 50, object_height = 50,
           properties = Some [\<lparr>prop_name = ''jitsiRoom'', prop_value = ''conf2''\<rparr>]\<rparr>]\<rparr>] []
     = [(''conf1'', \<lparr>zone_x = 0, zone_y = 0, zone_width = 50, zone_height = 50\<rparr>),
      (''conf2'', \<lparr>zone_x = 40, zone_y = 40, zone_width = 50, zone_height = 50\<rparr>)] \<and>
   getJitsiRoomForPosition exact (loadMap
     [\<lparr>layer_name = ''Floor'', objects = None\<rparr>,
      \<lparr>layer_name = ''Triggers'', objects = Some
         [\<lparr>object_x = 0, object_y = 0, object_width = 50, object_height = 50,
           properties = Some [\<lparr>prop_name = ''jitsiRoom'', prop_value = ''conf1''\<rparr>]\<rparr>,
          \<lparr>object_x = 500, object_y = 0, object_width = 10, object_height = 10, properties = None\<rparr>,
          \<lparr>object_x = 40, object_y = 40, object_width = 50, object_height = 50,
           properties = Some [\<lparr>prop_name = ''jitsiRoom'', prop_value = ''conf2''\<rparr>]\<rparr>]\<rparr>] []) 200 200 = None \<and>
   getJitsiRoomForPosition exact (loadMap
     [\<lparr>layer_name = ''Floor'', objects = None\<rparr>,
      \<lparr>layer_name = ''Triggers'', objects = Some
         [\<lparr>object_x = 0, object_y = 0, object_width = 50, object_height = 50,
           properties = Some [\<lparr>prop_name = ''jitsiRoom'', prop_value = ''conf1''\<rparr>]\<rparr>,
          \<lparr>object_x = 500, object_y = 0, object_width = 10, object_height = 10, properties = None\<rparr>,
          \<lparr>object_x = 40, object_y = 40, object_width = 50, object_height = 50,
           properties = Some [\<lparr>prop_name = ''jitsiRoom'', prop_value = ''conf2''\<rparr>]\<rparr>]\<rparr>] []) 50 50 = Some ''conf1'' \<and>
   getJitsiRoomForPosition exact (loadMap
     [\<lparr>layer_name = ''Floor'', objects = None\<rparr>,
      \<lparr>layer_name = ''Triggers'', objects = Some
         [\<lparr>object_x = 0, object_y = 0, object_width = 50, object_height = 50,
           properties = Some [\<lparr>prop_name = ''jitsiRoom'', prop_value = ''conf1''\<rparr>]\<rparr>,
          \<lparr>object_x = 500, object_y = 0, object_width = 10, object_height = 10, properties = None\<rparr>,
          \<lparr>object_x = 40, object_y = 40, object_width = 50, object_height = 50,
           properties = Some [\<lparr>prop_name = ''jitsiRoom'', prop_value = ''conf2''\<rparr>]\<rparr>]\<rparr>] []) 90 40 = Some ''conf2''"
proof -
  let ?objs = "[\<lparr>object_x = 0, object_y = 0, object_width = 50, object_height = 50,
           properties = Some [\<lparr>prop_name = ''jitsiRoom'', prop_value = ''conf1''\<rparr>]\<rparr>,
          \<lparr>object_x = 500, object_y = 0, object_width = 10, object_height = 10, properties = None\<rparr>,
          \<lparr>object_x = 40, object_y = 40, object_width = 50, object_height = 50,
           properties = Some [\<lparr>prop_name = ''jitsiRoom'', prop_value = ''conf2''\<rparr>]\<rparr>]"
  let ?layers = "[\<lparr>layer_name = ''Floor'', objects = None\<rparr>,
      \<lparr>layer_name = ''Triggers'', objects = Some
         [\<lparr>object_x = 0, object_y = 0, object_width = 50, object_height = 50,
           properties = Some [\<lparr>prop_name = ''jitsiRoom'', prop_value = ''conf1''\<rparr>]\<rparr>,
          \<lparr>object_x = 500, object_y = 0, object_width = 10, object_height = 10, properties = None\<rparr>,
          \<lparr>object_x = 40, object_y = 40, object_width = 50, object_height = 50,
           properties = Some [\<lparr>prop_name = ''jitsiRoom'', prop_value = ''conf2''\<rparr>]\<rparr>]\<rparr>]"
  let ?zs = "[(''conf1'', \<lparr>zone_x = 0, zone_y = 0, zone_width = 50, zone_height = 50\<rparr>),
      (''conf2'', \<lparr>zone_x = 40, zone_y = 40, zone_width = 50, zone_height = 50\<rparr>)]"
  have named: "named_zones ?objs = ?zs"
    by (simp add: named_zones_def map_filter_simps jitsiProp_def)
  have uniq: "distinct (Object_keys (named_zones ?objs))"
    by (simp add: named Object_keys_def)
  have layer: "find (\<lambda>layer. layer_name layer = ''Triggers'') ?layers
                 = Some \<lparr>layer_name = ''Triggers'', objects = Some ?objs\<rparr> \<and>
               objects \<lparr>layer_name = ''Triggers'', objects = Some ?objs\<rparr> = Some ?objs"
    by simp
  have loaded: "loadMap ?layers [] = ?zs"
    using zone_membership [OF refl, where layers = "?layers" and ar = exact and x = 0 and y = 0, THEN conjunct2, THEN conjunct2,
        THEN conjunct1, rule_format, OF layer, THEN conjunct2, THEN conjunct2, rule_format, OF uniq]
      named by simp
  have outside: "\<forall>(r, z) \<in> set (loadMap ?layers []). \<not> inside_zone exact z 200 200"
    by (simp add: loaded inside_zone_exact)
  have first: "\<exists>i < length (loadMap ?layers []).
                 fst (loadMap ?layers [] ! i) = ''conf1'' \<and>
                 inside_zone exact (snd (loadMap ?layers [] ! i)) 50 50 \<and>
                 (\<forall>j < i. \<not> inside_zone exact (snd (loadMap ?layers [] ! j)) 50 50)"
    by (rule exI [of _ 0]) (simp add: loaded inside_zone_exact)
  have second: "\<exists>i < length (loadMap ?layers []).
                  fst (loadMap ?layers [] ! i) = ''conf2'' \<and>
                  inside_zone exact (snd (loadMap ?layers [] ! i)) 90 40 \<and>
                  (\<forall>j < i. \<not> inside_zone exact (snd (loadMap ?layers [] ! j)) 90 40)"
    by (rule exI [of _ 1]) (simp add: loaded inside_zone_exact)
  have 1: "getJitsiRoomForPosition exact (loadMap ?layers []) 200 200 = None"
    using zone_membership [OF refl, where layers = "?layers" and ar = exact and x = 200 and y = 200, THEN conjunct1] outside by blast
  have 2: "getJitsiRoomForPosition exact (loadMap ?layers []) 50 50 = Some ''conf1''"
    using zone_membership [OF refl, where layers = "?layers" and ar = exact and x = 50 and y = 50, THEN conjunct2, THEN conjunct1,
        rule_format, of "''conf1''"] first by blast
  have 3: "getJitsiRoomForPosition exact (loadMap ?layers []) 90 40 = Some ''conf2''"
    using zone_membership [OF refl, where layers = "?layers" and ar = exact and x = 90 and y = 40, THEN conjunct2, THEN conjunct1,
        rule_format, of "''conf2''"] second by blast
  from uniq loaded 1 2 3 show ?thesis by (intro conjI)
qed

text \<open>
  C8, as the claim states it, fails: a player whose stored room is conf1 and who moves
  to a point outside conf1 but inside conf2 is sent a single join for conf2, and no
  leave that names conf1. (All the numbers are small integers, on which doubles
  compute exactly.)
\<close>

theorem zone_switch_counterexample:
  "\<not> inside_zone exact \<lparr>zone_x = 0, zone_y = 0, zone_width = 50, zone_height = 50\<rparr> 110 10 \<and>
   checkJitsiZone exact
     [(''conf1'', \<lparr>zone_x = 0, zone_y = 0, zone_width = 50, zone_height = 50\<rparr>),
      (''conf2'', \<lparr>zone_x = 100, zone_y = 0, zone_width = 50, zone_height = 50\<rparr>)]
     ''p'' 110 10
     [(''p'', [(''username'', ''Brad''), (''role'', ''Intern''), (''currentJitsiRoom'', ''conf1'')])]
   = ([(''p'', [(''username'', ''Brad''), (''role'', ''Intern''), (''currentJitsiRoom'', ''conf2'')])],
      [(''p'', Join_jitsi ''conf2'')])"
  by (simp add: inside_zone_def exact_simps checkJitsiZone_def getPlayer_def setPlayerJitsiRoom_def
      hSet_def hGetAll_def obj_get_def obj_set_def)

text \<open>
  C8, amended. When a recomputation finds a player whose stored room is \<open>Z\<close> at a
  position inside no loaded zone, the stored room is reset to none (the string
  \<^verbatim>\<open>'null'\<close>) and the recomputation emits exactly one event, to that player: a
  leave that names \<open>Z\<close>. No recomputation emits more than one event, so none emits both
  the join and the leave of a zone.
\<close>

theorem zone_leave:
  assumes "obj_get (getPlayer store socket_id) ''currentJitsiRoom'' = Some Z"
    and "\<forall>(r, z) \<in> set zs. \<not> inside_zone ar z newX newY"
  shows "snd (checkJitsiZone ar zs socket_id newX newY store)
           = [(socket_id, Leave_jitsi (Some Z))] \<and>
         obj_get (getPlayer (fst (checkJitsiZone ar zs socket_id newX newY store)) socket_id)
             ''currentJitsiRoom''
           = Some ''null'' \<and>
         length (snd (checkJitsiZone ar' zs' socket_id' x' y' store')) \<le> 1"
proof -
  have none: "getJitsiRoomForPosition ar zs newX newY = None"
    using assms(2) by (simp add: room_None_iff)
  have "checkJitsiZone ar zs socket_id newX newY store
          = (setPlayerJitsiRoom socket_id None store, [(socket_id, Leave_jitsi (Some Z))])"
    using assms(1) none by (simp add: checkJitsiZone_def)
  then show ?thesis
    using getPlayer_setPlayerJitsiRoom [of socket_id None store] checkJitsiZone_at_most_one
    by simp
qed

theorem zone_leave_witness:
  "obj_get (getPlayer [(''p'', [(''username'', ''Brad''), (''role'', ''Intern''), (''currentJitsiRoom'', ''conf1'')])] ''p'') ''currentJitsiRoom'' = Some ''conf1'' \<and>
   \<not> inside_zone exact \<lparr>zone_x = 0, zone_y = 0, zone_width = 50, zone_height = 50\<rparr> 60 60 \<and>
   snd (checkJitsiZone exact [(''conf1'', \<lparr>zone_x = 0, zone_y = 0, zone_width = 50, zone_height = 50\<rparr>)]
          ''p'' 60 60 [(''p'', [(''username'', ''Brad''), (''role'', ''Intern''), (''currentJitsiRoom'', ''conf1'')])])
     = [(''p'', Leave_jitsi (Some ''conf1''))] \<and>
   obj_get (getPlayer (fst (checkJitsiZone exact
          [(''conf1'', \<lparr>zone_x = 0, zone_y = 0, zone_width = 50, zone_height = 50\<rparr>)]
          ''p'' 60 60 [(''p'', [(''username'', ''Brad''), (''role'', ''Intern''), (''currentJitsiRoom'', ''conf1'')])])) ''p'') ''currentJitsiRoom''
     = Some ''null''"
proof -
  let ?store = "[(''p'', [(''username'', ''Brad''), (''role'', ''Intern''), (''currentJitsiRoom'', ''conf1'')])]"
  let ?zs = "[(''conf1'', \<lparr>zone_x = 0, zone_y = 0, zone_width = 50, zone_height = 50\<rparr>)]"
  have stored: "obj_get (getPlayer ?store ''p'') ''currentJitsiRoom'' = Some ''conf1''"
    by (simp add: getPlayer_def hGetAll_def obj_get_def)
  have outside: "\<forall>(r, z) \<in> set ?zs. \<not> inside_zone exact z 60 60"
    by (simp add: inside_zone_exact)
  note left = zone_leave [OF stored outside]
  have out1: "\<not> inside_zone exact \<lparr>zone_x = 0, zone_y = 0, zone_width = 50, zone_height = 50\<rparr> 60 60"
    using outside by simp
  from stored out1 left [THEN conjunct1] left [THEN conjunct2, THEN conjunct1]
  show ?thesis by (intro conjI)
qed

end
